theory Spec2Isabelle
  imports Complex_Main
begin

section \<open>The GPU cluster monitor: data model\<close>

text \<open>
  The records follow \<^verbatim>\<open>models.py\<close>. Isabelle record fields are global names, so a
  field that occurs in two classes keeps its name in one of them and is prefixed in
  the other (\<open>cfg_id\<close> is \<^verbatim>\<open>ServerConfig.id\<close>, \<open>status_hostname\<close> is
  \<^verbatim>\<open>ServerStatus.hostname\<close>, and so on). Python's \<^verbatim>\<open>int\<close> is \<open>int\<close>, an
  \<^verbatim>\<open>Optional\<close> field is an \<open>option\<close>, wall-clock readings and durations
  (\<^verbatim>\<open>time.time()\<close>, \<^verbatim>\<open>datetime.now()\<close>, \<^verbatim>\<open>response_time_ms\<close>) are \<open>real\<close>.
  A Python \<^verbatim>\<open>str\<close> is held as the bytes of its UTF-8 encoding, in a \<open>string\<close>:
  an ASCII character is one \<open>char\<close>, any other code point is two to four; equality,
  concatenation, substring search and splitting at a newline are the same on the
  encoding as on the text. The output of a subprocess is a \<open>string\<close> of raw bytes.
\<close>

record ServerConfig =
  cfg_id :: string
  hostname :: string
  description :: string

text \<open>\<^verbatim>\<open>settings: Dict[str, Any]\<close>; the three recognised options are integers.\<close>

record ClusterConfig =
  servers :: "ServerConfig list"
  settings :: "string \<rightharpoonup> int"

record GPUInfo =
  index :: int
  name :: string
  utilization_percent :: int
  gpu_memory_used_mb :: int
  memory_total_mb :: int
  memory_free_mb :: int
  temperature_c :: "int option"
  power_draw_w :: "int option"

record ProcessInfo =
  pid :: int
  username :: string
  gpu_index :: int
  memory_used_mb :: int
  process_name :: string

record ServerStatus =
  server_id :: string
  status_hostname :: string
  online :: bool
  error_message :: "string option"
  gpus :: "GPUInfo list"
  processes :: "ProcessInfo list"
  last_updated :: real
  response_time_ms :: "real option"

text \<open>
  A Python \<^verbatim>\<open>dict\<close> whose iteration order matters is an association list with
  distinct keys: assigning to a key that is present replaces the value in place,
  assigning to a new key appends.
\<close>

fun dict_set :: "('k \<times> 'v) list \<Rightarrow> 'k \<Rightarrow> 'v \<Rightarrow> ('k \<times> 'v) list" where
  "dict_set [] k v = [(k, v)]"
| "dict_set ((k', v') # d) k v =
     (if k' = k then (k, v) # d else (k', v') # dict_set d k v)"

definition dict_get :: "('k \<times> 'v) list \<Rightarrow> 'k \<Rightarrow> 'v option" where
  "dict_get d k = map_of d k"

record UserUsageSummary =
  usage_username :: string
  total_processes :: nat
  total_memory_used_mb :: int
  servers_used :: "string list"
  processes_by_server :: "(string \<times> ProcessInfo list) list"
  usage_last_updated :: real

record ClusterStatus =
  cluster_servers :: "ServerStatus list"
  total_gpus :: nat
  online_servers :: nat
  total_servers :: nat
  cluster_last_updated :: real

section \<open>The world outside the process, and the monitor's state\<close>

text \<open>
  What one run of \<^verbatim>\<open>ssh hostname command\<close> under \<^verbatim>\<open>asyncio.wait_for\<close> does: the
  process exits with a return code and the bytes of its two streams, the wait times out, or
  creating or awaiting the subprocess raises some other \<^verbatim>\<open>Exception\<close> (its
  \<^verbatim>\<open>str()\<close> is carried).
\<close>

datatype ssh_outcome = Exited int string string | TimedOut | Failed string

text \<open>
  The world is an oracle: \<open>clock w n\<close> is the value of the \<open>n\<close>-th reading of the
  wall clock, \<open>remote w n host cmd\<close> the outcome of the \<open>n\<close>-th SSH invocation,
  \<open>decode_error w b\<close> the \<^verbatim>\<open>str()\<close> of the \<^verbatim>\<open>UnicodeDecodeError\<close> that
  \<^verbatim>\<open>bytes.decode()\<close> raises on bytes \<open>b\<close> that are not UTF-8.
\<close>

record world =
  clock :: "nat \<Rightarrow> real"
  remote :: "nat \<Rightarrow> string \<Rightarrow> string \<Rightarrow> ssh_outcome"
  decode_error :: "string \<Rightarrow> string"

text \<open>
  The state of a \<^verbatim>\<open>GPUMonitor\<close>: its \<^verbatim>\<open>_cache\<close> (key to data and timestamp), and
  two ghost fields: how often the clock has been read, and every SSH invocation made
  so far. The semaphore is not part of the state: the model runs the tasks of one
  \<^verbatim>\<open>asyncio.gather\<close> one after the other in list order, which is a schedule the
  semaphore admits whenever \<^verbatim>\<open>max_concurrent\<close> is positive.
\<close>

record monitor =
  cache :: "string \<rightharpoonup> (ServerStatus \<times> real)"
  ticks :: nat
  ssh_log :: "(string \<times> string) list"

definition init_monitor :: monitor where
  "init_monitor = \<lparr>cache = Map.empty, ticks = 0, ssh_log = []\<rparr>"

text \<open>\<^verbatim>\<open>time.time()\<close> and \<^verbatim>\<open>datetime.now()\<close>: one reading of the clock.\<close>

definition time_time :: "world \<Rightarrow> monitor \<Rightarrow> real \<times> monitor" where
  "time_time w st = (clock w (ticks st), st\<lparr>ticks := Suc (ticks st)\<rparr>)"

text \<open>\<^verbatim>\<open>self.config.settings.get(key, default)\<close>\<close>

definition settings_get :: "ClusterConfig \<Rightarrow> string \<Rightarrow> int \<Rightarrow> int" where
  "settings_get cfg key dflt = (case settings cfg key of Some v \<Rightarrow> v | None \<Rightarrow> dflt)"

section \<open>Text helpers\<close>

text \<open>
  Which byte strings are UTF-8, as the strict decoder of \<^verbatim>\<open>bytes.decode()\<close> has it:
  \<open>utf8_width s\<close> is the number of bytes of the code point encoded at the start of
  \<open>s\<close>, zero when no well-formed encoding starts there (overlong forms, surrogates
  and code points above U+10FFFF are not well formed).
\<close>

definition in_range :: "nat \<Rightarrow> nat \<Rightarrow> char \<Rightarrow> bool" where
  "in_range lo hi c \<longleftrightarrow> lo \<le> of_char c \<and> of_char c \<le> hi"

definition utf8_width :: "string \<Rightarrow> nat" where
  "utf8_width s =
     (case s of
        [] \<Rightarrow> 0
      | a # r \<Rightarrow>
          if in_range 0x00 0x7F a then 1
          else if in_range 0xC2 0xDF a then
            (case r of b # _ \<Rightarrow> if in_range 0x80 0xBF b then 2 else 0 | _ \<Rightarrow> 0)
          else if in_range 0xE0 0xEF a then
            (case r of
               b # c # _ \<Rightarrow>
                 if (if a = CHR 0xE0 then in_range 0xA0 0xBF b
                     else if a = CHR 0xED then in_range 0x80 0x9F b
                     else in_range 0x80 0xBF b)
                    \<and> in_range 0x80 0xBF c
                 then 3 else 0
             | _ \<Rightarrow> 0)
          else if in_range 0xF0 0xF4 a then
            (case r of
               b # c # d # _ \<Rightarrow>
                 if (if a = CHR 0xF0 then in_range 0x90 0xBF b
                     else if a = CHR 0xF4 then in_range 0x80 0x8F b
                     else in_range 0x80 0xBF b)
                    \<and> in_range 0x80 0xBF c \<and> in_range 0x80 0xBF d
                 then 4 else 0
             | _ \<Rightarrow> 0)
          else 0)"

function utf8 :: "string \<Rightarrow> bool" where
  "utf8 s = (if s = [] then True
             else if utf8_width s = 0 then False
             else utf8 (drop (utf8_width s) s))"
  by pat_completeness auto
termination
  by (relation "measure length") auto

declare utf8.simps [simp del]

text \<open>
  The white space of Python (\<^verbatim>\<open>str.isspace\<close>, \<^verbatim>\<open>str.strip\<close>, \<^verbatim>\<open>\s\<close>), each code point
  in its UTF-8 encoding: U+0009 to U+000D, U+001C to U+001F, U+0020, U+0085, U+00A0,
  U+1680, U+2000 to U+200A, U+2028, U+2029, U+202F, U+205F and U+3000.
\<close>

definition white_space :: "string list" where
  "white_space =
     [[CHR 0x09], [CHR 0x0A], [CHR 0x0B], [CHR 0x0C], [CHR 0x0D],
      [CHR 0x1C], [CHR 0x1D], [CHR 0x1E], [CHR 0x1F], [CHR 0x20],
      [CHR 0xC2, CHR 0x85], [CHR 0xC2, CHR 0xA0],
      [CHR 0xE1, CHR 0x9A, CHR 0x80],
      [CHR 0xE2, CHR 0x80, CHR 0x80], [CHR 0xE2, CHR 0x80, CHR 0x81],
      [CHR 0xE2, CHR 0x80, CHR 0x82], [CHR 0xE2, CHR 0x80, CHR 0x83],
      [CHR 0xE2, CHR 0x80, CHR 0x84], [CHR 0xE2, CHR 0x80, CHR 0x85],
      [CHR 0xE2, CHR 0x80, CHR 0x86], [CHR 0xE2, CHR 0x80, CHR 0x87],
      [CHR 0xE2, CHR 0x80, CHR 0x88], [CHR 0xE2, CHR 0x80, CHR 0x89],
      [CHR 0xE2, CHR 0x80, CHR 0x8A],
      [CHR 0xE2, CHR 0x80, CHR 0xA8], [CHR 0xE2, CHR 0x80, CHR 0xA9],
      [CHR 0xE2, CHR 0x80, CHR 0xAF], [CHR 0xE2, CHR 0x81, CHR 0x9F],
      [CHR 0xE3, CHR 0x80, CHR 0x80]]"

text \<open>
  The number of bytes of the member of \<open>encs\<close> that \<open>s\<close> starts with, zero when it
  starts with none; and \<open>s\<close> without the members of \<open>encs\<close> it starts with.
\<close>

definition width_of :: "string list \<Rightarrow> string \<Rightarrow> nat" where
  "width_of encs s =
     (case find (\<lambda>e. take (length e) s = e) encs of Some e \<Rightarrow> length e | None \<Rightarrow> 0)"

function drop_all :: "string list \<Rightarrow> string \<Rightarrow> string" where
  "drop_all encs s = (if width_of encs s = 0 \<or> s = [] then s
                      else drop_all encs (drop (width_of encs s) s))"
  by pat_completeness auto
termination
  by (relation "measure (\<lambda>(encs, s). length s)") auto

declare drop_all.simps [simp del]

text \<open>
  \<^verbatim>\<open>str.strip()\<close>: white space is removed at the start, and at the end, where the
  encodings are read backwards.
\<close>

definition strip :: "string \<Rightarrow> string" where
  "strip s = rev (drop_all (map rev white_space) (rev (drop_all white_space s)))"

text \<open>
  The classes \<^verbatim>\<open>\d\<close> and \<^verbatim>\<open>\w\<close> of the telemetry patterns, on ASCII: the digits
  and letters Python also accepts outside ASCII are not in them.
\<close>

definition is_digit :: "char \<Rightarrow> bool" where
  "is_digit c \<longleftrightarrow> c \<in> set ''0123456789''"

definition is_word :: "char \<Rightarrow> bool" where
  "is_word c \<longleftrightarrow> c \<in> set (''abcdefghijklmnopqrstuvwxyz'' @ ''ABCDEFGHIJKLMNOPQRSTUVWXYZ''
                             @ ''0123456789_'')"

text \<open>\<^verbatim>\<open>sub in s\<close>\<close>

fun contains :: "string \<Rightarrow> string \<Rightarrow> bool" where
  "contains [] sub \<longleftrightarrow> sub = []"
| "contains (c # cs) sub \<longleftrightarrow> take (length sub) (c # cs) = sub \<or> contains cs sub"

text \<open>\<^verbatim>\<open>s.split('\n')\<close>\<close>

fun split_nl :: "string \<Rightarrow> string list" where
  "split_nl [] = [[]]"
| "split_nl (c # cs) =
     (if c = CHR 0x0A then [] # split_nl cs
      else (case split_nl cs of l # ls \<Rightarrow> (c # l) # ls | [] \<Rightarrow> [[c]]))"

text \<open>\<^verbatim>\<open>' '.join(parts)\<close>\<close>

fun join_space :: "string list \<Rightarrow> string" where
  "join_space [] = []"
| "join_space [p] = p"
| "join_space (p # q # ps) = p @ '' '' @ join_space (q # ps)"

text \<open>\<^verbatim>\<open>str(n)\<close> and \<^verbatim>\<open>int(s)\<close> in decimal.\<close>

function str_nat :: "nat \<Rightarrow> string" where
  "str_nat n = (if n < 10 then [''0123456789'' ! n]
                else str_nat (n div 10) @ [''0123456789'' ! (n mod 10)])"
  by pat_completeness auto
termination
  by (relation "measure id") auto

declare str_nat.simps [simp del]

definition str_int :: "int \<Rightarrow> string" where
  "str_int i = (if i < 0 then CHR ''-'' # str_nat (nat (- i)) else str_nat (nat i))"

definition int_of_digits :: "string \<Rightarrow> int" where
  "int_of_digits ds = foldl (\<lambda>n c. 10 * n + int (of_char c - 48)) 0 ds"

section \<open>Remote command runner\<close>

text \<open>
  The body of the \<^verbatim>\<open>try\<close> block of \<^verbatim>\<open>_run_ssh_command\<close>. It either returns the
  tuple or raises; the two exception classes the handlers tell apart are the
  constructors of \<open>raised\<close>.
\<close>

datatype raised = TimeoutError | Exception string

text \<open>
  \<^verbatim>\<open>bytes.decode()\<close>: the text of bytes that are UTF-8 (held as those bytes), or the
  \<^verbatim>\<open>UnicodeDecodeError\<close>, which is an \<^verbatim>\<open>Exception\<close>.
\<close>

definition decode :: "world \<Rightarrow> string \<Rightarrow> raised + string" where
  "decode w b = (if utf8 b then Inr b else Inl (Exception (decode_error w b)))"

definition ssh_attempt ::
  "world \<Rightarrow> string \<Rightarrow> string \<Rightarrow> real \<Rightarrow> monitor \<Rightarrow> (raised + bool \<times> string \<times> real) \<times> monitor" where
  "ssh_attempt w host command start_time st =
     (let st1 = st\<lparr>ssh_log := ssh_log st @ [(host, command)]\<rparr> in
      case remote w (length (ssh_log st)) host command of
        Failed msg \<Rightarrow> (Inl (Exception msg), st1)
      | TimedOut \<Rightarrow> (Inl TimeoutError, st1)
      | Exited returncode stdout stderr \<Rightarrow>
          (let (t, st2) = time_time w st1;
               response_time = (t - start_time) * 1000
           in if returncode = 0 then
                (case decode w stdout of
                   Inl e \<Rightarrow> (Inl e, st2)
                 | Inr text \<Rightarrow> (Inr (True, strip text, response_time), st2))
              else
                (case decode w stderr of
                   Inl e \<Rightarrow> (Inl e, st2)
                 | Inr text \<Rightarrow> (Inr (False, strip text, response_time), st2))))"

definition run_ssh_command ::
  "world \<Rightarrow> ClusterConfig \<Rightarrow> string \<Rightarrow> string \<Rightarrow> monitor \<Rightarrow> (bool \<times> string \<times> real) \<times> monitor" where
  "run_ssh_command w cfg host command st =
     (let (start_time, st1) = time_time w st;
          timeout = settings_get cfg ''ssh_timeout'' 5
      in case ssh_attempt w host command start_time st1 of
           (Inr result, st2) \<Rightarrow> (result, st2)
         | (Inl TimeoutError, st2) \<Rightarrow>
             (let (t, st3) = time_time w st2
              in ((False, ''SSH timeout after '' @ str_int timeout @ ''s'',
                   (t - start_time) * 1000), st3))
         | (Inl (Exception msg), st2) \<Rightarrow>
             (let (t, st3) = time_time w st2
              in ((False, msg, (t - start_time) * 1000), st3)))"

section \<open>Telemetry parser\<close>

text \<open>
  \<^verbatim>\<open>re.search\<close> tries every start position from the left and, at each, the
  alternatives of the pattern in priority order: a greedy repetition longest first,
  a lazy one shortest first. \<open>first_some\<close> is that search over a list of candidates
  in priority order; each candidate is the text consumed and the text that remains.
\<close>

fun first_some :: "('a \<Rightarrow> 'b option) \<Rightarrow> 'a list \<Rightarrow> 'b option" where
  "first_some f [] = None"
| "first_some f (x # xs) = (case f x of Some y \<Rightarrow> Some y | None \<Rightarrow> first_some f xs)"

text \<open>A literal.\<close>

definition lit :: "string \<Rightarrow> string \<Rightarrow> string option" where
  "lit p s = (if take (length p) s = p then Some (drop (length p) s) else None)"

text \<open>A greedy repetition of a character class, at least \<open>m\<close> characters.\<close>

definition greedy :: "(char \<Rightarrow> bool) \<Rightarrow> nat \<Rightarrow> string \<Rightarrow> (string \<times> string) list" where
  "greedy P m s = map (\<lambda>k. (take k s, drop k s)) (rev [m..<Suc (length (takeWhile P s))])"

text \<open>
  A greedy repetition of \<^verbatim>\<open>\s\<close>, at least \<open>m\<close> white-space characters:
  \<open>space_offsets s\<close> lists where each of the white-space characters \<open>s\<close> starts with
  ends.
\<close>

function space_offsets :: "string \<Rightarrow> nat list" where
  "space_offsets s =
     (if width_of white_space s = 0 \<or> s = [] then [0]
      else 0 # map (\<lambda>k. width_of white_space s + k)
                 (space_offsets (drop (width_of white_space s) s)))"
  by pat_completeness auto
termination
  by (relation "measure length") auto

declare space_offsets.simps [simp del]

definition greedy_space :: "nat \<Rightarrow> string \<Rightarrow> (string \<times> string) list" where
  "greedy_space m s = map (\<lambda>k. (take k s, drop k s)) (rev (drop m (space_offsets s)))"

text \<open>
  The lazy \<^verbatim>\<open>.*?\<close>; the dot does not match a newline. On the UTF-8 encoding the dot
  steps over one byte; what follows a dot in the patterns, and what the patterns
  start with, is an ASCII character, which occurs only where a code point starts, so
  the matches are those on the text.
\<close>

definition lazy_any :: "string \<Rightarrow> string list" where
  "lazy_any s = map (\<lambda>k. drop k s) [0..<Suc (length (takeWhile (\<lambda>c. c \<noteq> CHR 0x0A) s))]"

definition re_search :: "(string \<Rightarrow> 'a option) \<Rightarrow> string \<Rightarrow> 'a option" where
  "re_search m s = first_some m (map (\<lambda>k. drop k s) [0..<Suc (length s)])"

text \<open>\<^verbatim>\<open>GPU (\d+).*?(\d+)%.*?(\d+)/(\d+)\s*MB\<close> at the start of \<open>s\<close>.\<close>

definition gpu_match :: "string \<Rightarrow> (string \<times> string \<times> string \<times> string) option" where
  "gpu_match s =
     (case lit ''GPU '' s of None \<Rightarrow> None | Some r0 \<Rightarrow>
      first_some (\<lambda>(gpu_idx, r1).
      first_some (\<lambda>r2.
      first_some (\<lambda>(util, r3).
        case lit ''%'' r3 of None \<Rightarrow> None | Some r4 \<Rightarrow>
      first_some (\<lambda>r5.
      first_some (\<lambda>(used_mem, r6).
        case lit ''/'' r6 of None \<Rightarrow> None | Some r7 \<Rightarrow>
      first_some (\<lambda>(total_mem, r8).
      first_some (\<lambda>(sp, r9).
        case lit ''MB'' r9 of None \<Rightarrow> None
        | Some r10 \<Rightarrow> Some (gpu_idx, util, used_mem, total_mem))
      (greedy_space 0 r8)) (greedy is_digit 1 r7)) (greedy is_digit 1 r5))
      (lazy_any r4)) (greedy is_digit 1 r2)) (lazy_any r1)) (greedy is_digit 1 r0))"

text \<open>\<^verbatim>\<open>PID\s+(\d+)\s+(\w+)\s+GPU:(\d+)\s+(\d+)MB\s+(.+)\<close> at the start of \<open>s\<close>.\<close>

definition process_match ::
  "string \<Rightarrow> (string \<times> string \<times> string \<times> string \<times> string) option" where
  "process_match s =
     (case lit ''PID'' s of None \<Rightarrow> None | Some r0 \<Rightarrow>
      first_some (\<lambda>(sp1, r1).
      first_some (\<lambda>(pid_s, r2).
      first_some (\<lambda>(sp2, r3).
      first_some (\<lambda>(user, r4).
      first_some (\<lambda>(sp3, r5).
        case lit ''GPU:'' r5 of None \<Rightarrow> None | Some r6 \<Rightarrow>
      first_some (\<lambda>(gpu_idx, r7).
      first_some (\<lambda>(sp4, r8).
      first_some (\<lambda>(mem, r9).
        case lit ''MB'' r9 of None \<Rightarrow> None | Some r10 \<Rightarrow>
      first_some (\<lambda>(sp5, r11).
      first_some (\<lambda>(proc_name, r12). Some (pid_s, user, gpu_idx, mem, proc_name))
      (greedy (\<lambda>c. c \<noteq> CHR 0x0A) 1 r11)) (greedy_space 1 r10)) (greedy is_digit 1 r8))
      (greedy_space 1 r7)) (greedy is_digit 1 r6)) (greedy_space 1 r4))
      (greedy is_word 1 r3)) (greedy_space 1 r2)) (greedy is_digit 1 r1))
      (greedy_space 1 r0))"

text \<open>The body of the loop over the lines of the output.\<close>

definition parse_line ::
  "string \<Rightarrow> GPUInfo list \<times> ProcessInfo list \<Rightarrow> GPUInfo list \<times> ProcessInfo list" where
  "parse_line raw acc =
     (let line = strip raw in
      if line = [] then acc
      else
        (let (gpus0, processes0) = acc;
             gpus1 =
               (if contains line ''GPU'' \<and> contains line ''%'' then
                  (case re_search gpu_match line of
                     Some (gpu_idx, util, used_mem, total_mem) \<Rightarrow>
                       gpus0 @ [\<lparr>index = int_of_digits gpu_idx,
                                 name = ''Tesla V100'',
                                 utilization_percent = int_of_digits util,
                                 gpu_memory_used_mb = int_of_digits used_mem,
                                 memory_total_mb = int_of_digits total_mem,
                                 memory_free_mb = int_of_digits total_mem - int_of_digits used_mem,
                                 temperature_c = None,
                                 power_draw_w = None\<rparr>]
                   | None \<Rightarrow> gpus0)
                else gpus0);
             processes1 =
               (if contains line ''PID'' \<and> contains line ''Memory'' then
                  (case re_search process_match line of
                     Some (pid_s, user, gpu_idx, mem, proc_name) \<Rightarrow>
                       processes0 @ [\<lparr>pid = int_of_digits pid_s,
                                      username = user,
                                      gpu_index = int_of_digits gpu_idx,
                                      memory_used_mb = int_of_digits mem,
                                      process_name = strip proc_name\<rparr>]
                   | None \<Rightarrow> processes0)
                else processes0)
         in (gpus1, processes1)))"

definition parse_nvidia_smi_output :: "string \<Rightarrow> GPUInfo list \<times> ProcessInfo list" where
  "parse_nvidia_smi_output output = foldl (\<lambda>acc raw. parse_line raw acc) ([], []) (split_nl output)"

section \<open>Freshness cache\<close>

definition is_cache_valid :: "world \<Rightarrow> string \<Rightarrow> int \<Rightarrow> monitor \<Rightarrow> bool \<times> monitor" where
  "is_cache_valid w key ttl st =
     (case cache st key of
        None \<Rightarrow> (False, st)
      | Some (d, timestamp) \<Rightarrow>
          (let (t, st1) = time_time w st in (t - timestamp < real_of_int ttl, st1)))"

definition get_cached :: "monitor \<Rightarrow> string \<Rightarrow> ServerStatus option" where
  "get_cached st key = (case cache st key of Some (d, timestamp) \<Rightarrow> Some d | None \<Rightarrow> None)"

definition set_cache :: "world \<Rightarrow> string \<Rightarrow> ServerStatus \<Rightarrow> monitor \<Rightarrow> monitor" where
  "set_cache w key d st =
     (let (t, st1) = time_time w st in st1\<lparr>cache := (cache st1)(key \<mapsto> (d, t))\<rparr>)"

section \<open>Server status resolver\<close>

definition cache_key_of :: "string \<Rightarrow> string" where
  "cache_key_of sid = ''server_status_'' @ sid"

definition nvidia_smi_command :: string where
  "nvidia_smi_command =
     ''nvidia-smi --query-gpu=index,name,utilization.gpu,memory.used,memory.total,''
     @ ''temperature.gpu,power.draw --format=csv,noheader,nounits && echo ''
     @ [CHR 0x27] @ ''---PROCESSES---'' @ [CHR 0x27] @ '' && nvidia-smi pmon -c 1''"

text \<open>
  The second half of \<^verbatim>\<open>_get_server_status\<close>, reached when the cache gave nothing:
  run the status command, build the status, store it.
\<close>

definition query_server ::
  "world \<Rightarrow> ClusterConfig \<Rightarrow> ServerConfig \<Rightarrow> monitor \<Rightarrow> ServerStatus \<times> monitor" where
  "query_server w cfg server st2 =
     (let ((success, output, response_time), st3) =
            run_ssh_command w cfg (hostname server) nvidia_smi_command st2;
          (now, st4) = time_time w st3;
          status =
            (if success then
               (let (gs, ps) = parse_nvidia_smi_output output
                in \<lparr>server_id = cfg_id server,
                    status_hostname = hostname server,
                    online = True,
                    error_message = None,
                    gpus = gs,
                    processes = ps,
                    last_updated = now,
                    response_time_ms = Some response_time\<rparr>)
             else
               \<lparr>server_id = cfg_id server,
                status_hostname = hostname server,
                online = False,
                error_message = Some output,
                gpus = [],
                processes = [],
                last_updated = now,
                response_time_ms = Some response_time\<rparr>)
      in (status, set_cache w (cache_key_of (cfg_id server)) status st4))"

text \<open>
  \<^verbatim>\<open>_get_server_status\<close>. A \<^verbatim>\<open>ServerStatus\<close> object is truthy, so
  \<^verbatim>\<open>if cached_data:\<close> is the test that \<^verbatim>\<open>_get_cached\<close> found the key.
\<close>

definition get_server_status ::
  "world \<Rightarrow> ClusterConfig \<Rightarrow> ServerConfig \<Rightarrow> monitor \<Rightarrow> ServerStatus \<times> monitor" where
  "get_server_status w cfg server st =
     (let (start_time, st1) = time_time w st;
          cache_key = cache_key_of (cfg_id server);
          ttl = settings_get cfg ''cache_ttl'' 30;
          (valid, st2) = is_cache_valid w cache_key ttl st1
      in case (if valid then get_cached st2 cache_key else None) of
           Some cached_data \<Rightarrow> (cached_data, st2)
         | None \<Rightarrow> query_server w cfg server st2)"

section \<open>Cluster aggregator\<close>

text \<open>
  \<^verbatim>\<open>if server_ids:\<close> is false for \<^verbatim>\<open>None\<close> and for the empty list.
\<close>

definition servers_to_check :: "ClusterConfig \<Rightarrow> string list option \<Rightarrow> ServerConfig list" where
  "servers_to_check cfg server_ids =
     (case server_ids of
        None \<Rightarrow> servers cfg
      | Some ids \<Rightarrow>
          if ids = [] then servers cfg
          else filter (\<lambda>s. cfg_id s \<in> set ids) (servers cfg))"

text \<open>
  \<^verbatim>\<open>asyncio.gather(*tasks, return_exceptions=True)\<close>: one result per task, in the
  order of the tasks; a result is the task's value, or the exception it raised
  (carried as its \<^verbatim>\<open>str()\<close>).
\<close>

fun gather ::
  "world \<Rightarrow> ClusterConfig \<Rightarrow> ServerConfig list \<Rightarrow> monitor \<Rightarrow> (string + ServerStatus) list \<times> monitor" where
  "gather w cfg [] st = ([], st)"
| "gather w cfg (server # rest) st =
     (let (status, st1) = get_server_status w cfg server st;
          (results, st2) = gather w cfg rest st1
      in (Inr status # results, st2))"

text \<open>The loop that replaces each exception by a synthetic offline status.\<close>

fun valid_statuses ::
  "world \<Rightarrow> ServerConfig list \<Rightarrow> (string + ServerStatus) list \<Rightarrow> monitor \<Rightarrow> ServerStatus list \<times> monitor" where
  "valid_statuses w (server # rest) (Inl msg # results) st =
     (let (now, st1) = time_time w st;
          error_status = \<lparr>server_id = cfg_id server,
                          status_hostname = hostname server,
                          online = False,
                          error_message = Some msg,
                          gpus = [],
                          processes = [],
                          last_updated = now,
                          response_time_ms = None\<rparr>;
          (valid, st2) = valid_statuses w rest results st1
      in (error_status # valid, st2))"
| "valid_statuses w (server # rest) (Inr status # results) st =
     (let (valid, st2) = valid_statuses w rest results st
      in (status # valid, st2))"
| "valid_statuses w _ _ st = ([], st)"

definition summarise :: "world \<Rightarrow> ServerStatus list \<Rightarrow> monitor \<Rightarrow> ClusterStatus \<times> monitor" where
  "summarise w valid st =
     (let gpu_total = sum_list (map (\<lambda>s. length (gpus s)) (filter online valid));
          online_count = sum_list (map (\<lambda>s. 1) (filter online valid));
          (now, st1) = time_time w st
      in (\<lparr>cluster_servers = valid,
           total_gpus = gpu_total,
           online_servers = online_count,
           total_servers = length valid,
           cluster_last_updated = now\<rparr>, st1))"

definition get_cluster_status ::
  "world \<Rightarrow> ClusterConfig \<Rightarrow> string list option \<Rightarrow> monitor \<Rightarrow> ClusterStatus \<times> monitor" where
  "get_cluster_status w cfg server_ids st =
     (let to_check = servers_to_check cfg server_ids;
          (server_statuses, st1) = gather w cfg to_check st;
          (valid, st2) = valid_statuses w to_check server_statuses st1
      in summarise w valid st2)"

section \<open>Usage and kill engine\<close>

text \<open>
  The body of the loop of \<^verbatim>\<open>get_user_usage\<close> over the servers of the cluster
  status; the accumulator is \<^verbatim>\<open>user_processes\<close>, \<^verbatim>\<open>processes_by_server\<close>,
  \<^verbatim>\<open>servers_used\<close>.
\<close>

definition usage_step ::
  "string \<Rightarrow> ServerStatus \<Rightarrow>
   ProcessInfo list \<times> (string \<times> ProcessInfo list) list \<times> string list \<Rightarrow>
   ProcessInfo list \<times> (string \<times> ProcessInfo list) list \<times> string list" where
  "usage_step uname server_status acc =
     (let (user_processes, by_server, used) = acc in
      if \<not> online server_status then acc
      else
        (let server_processes = filter (\<lambda>p. username p = uname) (processes server_status) in
         if server_processes \<noteq> [] then
           (user_processes @ server_processes,
            dict_set by_server (server_id server_status) server_processes,
            used @ [server_id server_status])
         else acc))"

definition usage_loop ::
  "string \<Rightarrow> ServerStatus list \<Rightarrow>
   ProcessInfo list \<times> (string \<times> ProcessInfo list) list \<times> string list" where
  "usage_loop uname statuses = foldl (\<lambda>acc s. usage_step uname s acc) ([], [], []) statuses"

definition get_user_usage ::
  "world \<Rightarrow> ClusterConfig \<Rightarrow> string \<Rightarrow> string list option \<Rightarrow> monitor \<Rightarrow> UserUsageSummary \<times> monitor" where
  "get_user_usage w cfg uname server_ids st =
     (let (cluster_status, st1) = get_cluster_status w cfg server_ids st;
          (user_processes, by_server, used) = usage_loop uname (cluster_servers cluster_status);
          total_memory = sum_list (map memory_used_mb user_processes);
          (now, st2) = time_time w st1
      in (\<lparr>usage_username = uname,
           total_processes = length user_processes,
           total_memory_used_mb = total_memory,
           servers_used = used,
           processes_by_server = by_server,
           usage_last_updated = now\<rparr>, st2))"

definition kill_command :: "ProcessInfo list \<Rightarrow> string" where
  "kill_command procs = ''kill -9 '' @ join_space (map (\<lambda>p. str_int (pid p)) procs)"

text \<open>
  The body of the loop of \<^verbatim>\<open>kill_user_tasks\<close> over the items of
  \<^verbatim>\<open>usage.processes_by_server\<close>; the accumulator is \<^verbatim>\<open>results\<close> and the monitor.
\<close>

definition kill_step ::
  "world \<Rightarrow> ClusterConfig \<Rightarrow> string \<times> ProcessInfo list \<Rightarrow>
   (string \<times> string) list \<times> monitor \<Rightarrow> (string \<times> string) list \<times> monitor" where
  "kill_step w cfg item acc =
     (let (sid, procs) = item; (results, st) = acc in
      case find (\<lambda>s. cfg_id s = sid) (servers cfg) of
        None \<Rightarrow> (dict_set results sid ''Server config not found'', st)
      | Some server \<Rightarrow>
          (let ((success, output, elapsed), st1) =
                 run_ssh_command w cfg (hostname server) (kill_command procs) st
           in if success then
                (dict_set results sid (''Killed '' @ str_nat (length procs) @ '' processes''),
                 st1\<lparr>cache := (cache st1)(cache_key_of sid := None)\<rparr>)
              else
                (dict_set results sid (''Failed to kill processes: '' @ output), st1)))"

definition kill_loop ::
  "world \<Rightarrow> ClusterConfig \<Rightarrow> (string \<times> ProcessInfo list) list \<Rightarrow>
   (string \<times> string) list \<times> monitor \<Rightarrow> (string \<times> string) list \<times> monitor" where
  "kill_loop w cfg items acc = foldl (\<lambda>a item. kill_step w cfg item a) acc items"

definition kill_user_tasks ::
  "world \<Rightarrow> ClusterConfig \<Rightarrow> string \<Rightarrow> string list option \<Rightarrow> bool \<Rightarrow> monitor \<Rightarrow>
   (string \<times> string) list \<times> monitor" where
  "kill_user_tasks w cfg uname server_ids confirm st =
     (if \<not> confirm then ([(''error'', ''Must set confirm=True to kill user tasks'')], st)
      else
        (let (usage, st1) = get_user_usage w cfg uname server_ids st in
         if processes_by_server usage = [] then
           ([(''message'', ''No processes found for user '' @ uname)], st1)
         else kill_loop w cfg (processes_by_server usage) ([], st1)))"

section \<open>Reachable states\<close>

text \<open>
  The states a monitor goes through: it starts with an empty cache, and its state
  changes only through its three public operations.
\<close>

inductive reachable :: "world \<Rightarrow> ClusterConfig \<Rightarrow> monitor \<Rightarrow> bool" for w cfg where
  start: "reachable w cfg init_monitor"
| status: "reachable w cfg st \<Longrightarrow> reachable w cfg (snd (get_cluster_status w cfg server_ids st))"
| usage: "reachable w cfg st \<Longrightarrow> reachable w cfg (snd (get_user_usage w cfg uname server_ids st))"
| kill: "reachable w cfg st \<Longrightarrow>
         reachable w cfg (snd (kill_user_tasks w cfg uname server_ids confirm st))"

section \<open>Well-formed statuses and caches\<close>

text \<open>
  The shape the data model asks of a \<^verbatim>\<open>ServerStatus\<close>: an error message exactly when
  the server is offline, and no telemetry when it is offline.
\<close>

definition status_consistent :: "ServerStatus \<Rightarrow> bool" where
  "status_consistent s \<longleftrightarrow>
     ((error_message s \<noteq> None) = (\<not> online s)) \<and> (online s \<or> (gpus s = [] \<and> processes s = []))"

text \<open>
  The invariant of the cache that the proofs carry: the entry under the key of a
  server id is a consistent status of that server.
\<close>

definition cache_ok :: "monitor \<Rightarrow> bool" where
  "cache_ok st \<longleftrightarrow>
     (\<forall>sid s ts. cache st (cache_key_of sid) = Some (s, ts) \<longrightarrow>
        server_id s = sid \<and> status_consistent s)"

section \<open>A concrete cluster\<close>

text \<open>
  Three configured servers and a world to run them in: the clock advances ten
  seconds per reading; the first host answers the status command with one GPU and
  two processes, the second with two GPUs and one process, the first accepts a
  \<^verbatim>\<open>kill\<close> and the second refuses it, the third refuses the connection, the fourth
  never answers, the fifth prints a byte that is not UTF-8, the sixth prints
  \<^verbatim>\<open>ok\<close> between a no-break space (U+00A0) and a line separator (U+2028) with a
  newline, and for any other host the subprocess cannot be created.
\<close>

definition ex_output :: string where
  "ex_output =
     ''GPU 0: A100, 85% utilization, 15000/16000 MB'' @ [CHR 0x0A]
     @ ''PID 12345 testuser GPU:0 2048MB Memory python'' @ [CHR 0x0A]
     @ ''PID 777 otheruser GPU:0 1024MB Memory jupyter'' @ [CHR 0x0A]"

definition ex_output2 :: string where
  "ex_output2 =
     ''GPU 0: A100, 10% utilization, 100/16000 MB'' @ [CHR 0x0A]
     @ ''GPU 1: A100, 0% utilization, 0/16000 MB'' @ [CHR 0x0A]
     @ ''PID 222 testuser GPU:0 512MB Memory python'' @ [CHR 0x0A]"

definition ex_refused :: string where
  "ex_refused = ''Connection refused'' @ [CHR 0x0D, CHR 0x0A]"

definition ex_padded_ok :: string where
  "ex_padded_ok = [CHR 0xC2, CHR 0xA0] @ ''ok'' @ [CHR 0xE2, CHR 0x80, CHR 0xA8, CHR 0x0A]"

definition ex_decode_message :: string where
  "ex_decode_message =
     [CHR 0x27] @ ''utf-8'' @ [CHR 0x27] @ '' codec can'' @ [CHR 0x27]
     @ ''t decode byte 0xff in position 0: invalid start byte''"

definition ex_world :: world where
  "ex_world =
     \<lparr>clock = (\<lambda>n. 10 * real n),
      remote = (\<lambda>n host cmd.
        if host = ''gpu01.example.com'' then
          (if take 4 cmd = ''kill'' then Exited 0 [] []
           else Exited 0 ex_output [])
        else if host = ''gpu02.example.com'' then
          (if take 4 cmd = ''kill'' then Exited 1 [] ''Operation not permitted''
           else Exited 0 ex_output2 [])
        else if host = ''gpu03.example.com'' then Exited 255 [] ex_refused
        else if host = ''gpu04.example.com'' then TimedOut
        else if host = ''gpu05.example.com'' then Exited 0 [CHR 0xFF] []
        else if host = ''gpu06.example.com'' then Exited 0 ex_padded_ok []
        else Failed ''No such file or directory''),
      decode_error = (\<lambda>b. ex_decode_message)\<rparr>"

definition ex_cfg :: ClusterConfig where
  "ex_cfg =
     \<lparr>servers =
        [\<lparr>cfg_id = ''gpu01'', hostname = ''gpu01.example.com'', description = []\<rparr>,
         \<lparr>cfg_id = ''gpu02'', hostname = ''gpu02.example.com'', description = []\<rparr>,
         \<lparr>cfg_id = ''gpu03'', hostname = ''gpu03.example.com'', description = []\<rparr>],
      settings = Map.empty\<rparr>"

text \<open>
  The statuses this world gives for the first host, for the second host and for
  the host that is down.
\<close>

definition ex_up :: "string \<Rightarrow> string \<Rightarrow> real \<Rightarrow> ServerStatus" where
  "ex_up sid host t =
     \<lparr>server_id = sid, status_hostname = host, online = True, error_message = None,
      gpus = fst (parse_nvidia_smi_output (strip ex_output)),
      processes = snd (parse_nvidia_smi_output (strip ex_output)),
      last_updated = t, response_time_ms = Some 10000\<rparr>"

definition ex_up2 :: "string \<Rightarrow> string \<Rightarrow> real \<Rightarrow> ServerStatus" where
  "ex_up2 sid host t =
     \<lparr>server_id = sid, status_hostname = host, online = True, error_message = None,
      gpus = fst (parse_nvidia_smi_output (strip ex_output2)),
      processes = snd (parse_nvidia_smi_output (strip ex_output2)),
      last_updated = t, response_time_ms = Some 10000\<rparr>"

definition ex_down :: "string \<Rightarrow> string \<Rightarrow> real \<Rightarrow> ServerStatus" where
  "ex_down sid host t =
     \<lparr>server_id = sid, status_hostname = host, online = False,
      error_message = Some ''Connection refused'', gpus = [], processes = [],
      last_updated = t, response_time_ms = Some 10000\<rparr>"

text \<open>
  The first configured server, and the monitor after one and after two resolutions
  of it from the initial state.
\<close>

definition ex_srv1 :: ServerConfig where
  "ex_srv1 = \<lparr>cfg_id = ''gpu01'', hostname = ''gpu01.example.com'', description = []\<rparr>"



text \<open>The monitor of the concrete cluster after one status query of all servers.\<close>

definition ex_after_status :: monitor where
  "ex_after_status =
     \<lparr>cache = [cache_key_of ''gpu01'' \<mapsto> (ex_up ''gpu01'' ''gpu01.example.com'' 30, 40),
               cache_key_of ''gpu02'' \<mapsto> (ex_up2 ''gpu02'' ''gpu02.example.com'' 80, 90),
               cache_key_of ''gpu03'' \<mapsto> (ex_down ''gpu03'' ''gpu03.example.com'' 130, 140)],
      ticks = 16,
      ssh_log = [(''gpu01.example.com'', nvidia_smi_command),
                 (''gpu02.example.com'', nvidia_smi_command),
                 (''gpu03.example.com'', nvidia_smi_command)]\<rparr>"

section \<open>Properties\<close>

subsection \<open>Kill without confirmation\<close>

text \<open>
  C1. For every user name, server-id filter and monitor state, \<^verbatim>\<open>kill_user_tasks\<close>
  with \<^verbatim>\<open>confirm=False\<close> returns the single entry \<^verbatim>\<open>error\<close> and leaves the monitor
  as it was: no SSH invocation is added to the log, no cache entry changes, the
  clock is not even read.
\<close>

theorem kill_without_confirm_is_inert:
  "fst (kill_user_tasks w cfg uname server_ids False st) =
     [(''error'', ''Must set confirm=True to kill user tasks'')]
   \<and> ssh_log (snd (kill_user_tasks w cfg uname server_ids False st)) = ssh_log st
   \<and> cache (snd (kill_user_tasks w cfg uname server_ids False st)) = cache st
   \<and> snd (kill_user_tasks w cfg uname server_ids False st) = st"
  by (simp add: kill_user_tasks_def)

subsection \<open>Cluster totals\<close>

lemma get_cluster_status_eq:
  "get_cluster_status w cfg server_ids st =
     summarise w
       (fst (valid_statuses w (servers_to_check cfg server_ids)
               (fst (gather w cfg (servers_to_check cfg server_ids) st))
               (snd (gather w cfg (servers_to_check cfg server_ids) st))))
       (snd (valid_statuses w (servers_to_check cfg server_ids)
               (fst (gather w cfg (servers_to_check cfg server_ids) st))
               (snd (gather w cfg (servers_to_check cfg server_ids) st))))"
  by (simp add: get_cluster_status_def Let_def split: prod.splits)

lemma summarise_fst:
  "fst (summarise w valid st) =
     \<lparr>cluster_servers = valid,
      total_gpus = sum_list (map (\<lambda>s. length (gpus s)) (filter online valid)),
      online_servers = sum_list (map (\<lambda>s. 1) (filter online valid)),
      total_servers = length valid,
      cluster_last_updated = clock w (ticks st)\<rparr>"
  by (simp add: summarise_def time_time_def)

lemma sum_filter_if:
  "sum_list (map f (filter P xs)) = (\<Sum>x\<leftarrow>xs. if P x then f x else (0::nat))"
  by (induction xs) auto

lemma count_filter: "sum_list (map (\<lambda>s. Suc 0) (filter P xs)) = length (filter P xs)"
  by (induction xs) auto

text \<open>
  C4. In every cluster status that \<^verbatim>\<open>get_cluster_status\<close> returns, \<^verbatim>\<open>total_gpus\<close> is
  the sum over the servers of the number of their GPUs, an offline server counting
  zero, and \<^verbatim>\<open>online_servers\<close> is the number of servers that are online.
\<close>

theorem cluster_totals:
  "total_gpus (fst (get_cluster_status w cfg server_ids st)) =
     (\<Sum>s\<leftarrow>cluster_servers (fst (get_cluster_status w cfg server_ids st)).
        if online s then length (gpus s) else 0)
   \<and> online_servers (fst (get_cluster_status w cfg server_ids st)) =
     length (filter online (cluster_servers (fst (get_cluster_status w cfg server_ids st))))"
proof
  show "total_gpus (fst (get_cluster_status w cfg server_ids st)) =
     (\<Sum>s\<leftarrow>cluster_servers (fst (get_cluster_status w cfg server_ids st)).
        if online s then length (gpus s) else 0)"
    by (simp add: get_cluster_status_eq summarise_fst sum_filter_if)
  show "online_servers (fst (get_cluster_status w cfg server_ids st)) =
     length (filter online (cluster_servers (fst (get_cluster_status w cfg server_ids st))))"
    by (simp add: get_cluster_status_eq summarise_fst count_filter)
qed

subsection \<open>The telemetry parser names every GPU alike\<close>

lemma parse_line_names:
  "\<forall>g\<in>set (fst acc). name g = ''Tesla V100'' \<Longrightarrow>
   \<forall>g\<in>set (fst (parse_line raw acc)). name g = ''Tesla V100''"
  by (auto simp: parse_line_def Let_def split: prod.splits option.splits if_splits)

lemma parse_fold_names:
  "\<forall>g\<in>set (fst acc). name g = ''Tesla V100'' \<Longrightarrow>
   \<forall>g\<in>set (fst (foldl (\<lambda>a raw. parse_line raw a) acc ls)). name g = ''Tesla V100''"
proof (induction ls arbitrary: acc)
  case Nil
  then show ?case by simp
next
  case (Cons l ls)
  show ?case
    using Cons.IH [OF parse_line_names [OF Cons.prems]] by simp
qed

lemma ex_parse:
  "parse_nvidia_smi_output ex_output =
     ([\<lparr>index = 0, name = ''Tesla V100'', utilization_percent = 85,
        gpu_memory_used_mb = 15000, memory_total_mb = 16000,
        memory_free_mb = 1000, temperature_c = None, power_draw_w = None\<rparr>],
      [\<lparr>pid = 12345, username = ''testuser'', gpu_index = 0, memory_used_mb = 2048,
        process_name = ''Memory python''\<rparr>,
       \<lparr>pid = 777, username = ''otheruser'', gpu_index = 0, memory_used_mb = 1024,
        process_name = ''Memory jupyter''\<rparr>])"
  by code_simp

text \<open>
  C9. Whatever the raw output says, every GPU record the parser produces carries the
  name \<^verbatim>\<open>Tesla V100\<close>: the name is a constant of the code, not read from the text.
\<close>

theorem parsed_gpu_name_is_constant:
  "\<forall>g\<in>set (fst (parse_nvidia_smi_output output)). name g = ''Tesla V100''"
  unfolding parse_nvidia_smi_output_def by (rule parse_fold_names) simp

text \<open>The output of the concrete cluster names an A100; the record says V100.\<close>

theorem parsed_gpu_name_is_constant_witness:
  "contains ex_output ''A100''
   \<and> map name (fst (parse_nvidia_smi_output ex_output)) = [''Tesla V100'']"
proof -
  have a: "contains ex_output ''A100''"
    by code_simp
  have l: "length (fst (parse_nvidia_smi_output ex_output)) = 1"
    by (simp add: ex_parse)
  then obtain g where g: "fst (parse_nvidia_smi_output ex_output) = [g]"
    by (cases "fst (parse_nvidia_smi_output ex_output)") auto
  have "name g = ''Tesla V100''"
    using parsed_gpu_name_is_constant [of ex_output] g by simp
  with a g show ?thesis by simp
qed

subsection \<open>Remote command runner\<close>

lemma ex_utf8_empty: "utf8 []"
  by (simp add: utf8.simps)

lemma ex_strip_empty: "strip [] = []"
  by code_simp

lemma ex_utf8_output: "utf8 ex_output"
  by code_simp

lemma ex_utf8_output2: "utf8 ex_output2"
  by code_simp

lemma ex_utf8_refused: "utf8 ex_refused"
  by code_simp

lemma ex_strip_refused: "strip ex_refused = ''Connection refused''"
  by code_simp

lemma ex_utf8_padded: "utf8 ex_padded_ok"
  by code_simp

lemma ex_strip_padded: "strip ex_padded_ok = ''ok''"
  by code_simp

lemma ex_utf8_denied: "utf8 ''Operation not permitted''"
  by code_simp

lemma ex_strip_denied: "strip ''Operation not permitted'' = ''Operation not permitted''"
  by code_simp

lemma ex_not_utf8: "\<not> utf8 [CHR 0xFF]"
  by code_simp

lemma ex_timeout_text: "str_int (settings_get ex_cfg ''ssh_timeout'' 5) = ''5''"
  by (simp add: ex_cfg_def settings_get_def str_int_def str_nat.simps)

text \<open>
  C6, as amended. The runner always returns a tuple and never raises. When the wait
  times out the tuple is a failure whose text names the configured timeout; when
  the process exits with status zero and its standard output is UTF-8, it is a
  success with the stripped output; when the process exits with another status and
  its standard error is UTF-8, it is a failure with the stripped error text; when
  the stream that is read is not UTF-8, or the subprocess raises, it is a failure
  with the text of the exception.
\<close>

theorem run_ssh_command_cases:
  "(remote w (length (ssh_log st)) host cmd = TimedOut \<longrightarrow>
      fst (fst (run_ssh_command w cfg host cmd st)) = False \<and>
      fst (snd (fst (run_ssh_command w cfg host cmd st))) =
        ''SSH timeout after '' @ str_int (settings_get cfg ''ssh_timeout'' 5) @ ''s'')
   \<and> (remote w (length (ssh_log st)) host cmd = Exited 0 out err \<and> utf8 out \<longrightarrow>
      fst (fst (run_ssh_command w cfg host cmd st)) = True \<and>
      fst (snd (fst (run_ssh_command w cfg host cmd st))) = strip out)
   \<and> (remote w (length (ssh_log st)) host cmd = Exited 0 out err \<and> \<not> utf8 out \<longrightarrow>
      fst (fst (run_ssh_command w cfg host cmd st)) = False \<and>
      fst (snd (fst (run_ssh_command w cfg host cmd st))) = decode_error w out)
   \<and> (rc \<noteq> 0 \<and> remote w (length (ssh_log st)) host cmd = Exited rc out err \<and> utf8 err \<longrightarrow>
      fst (fst (run_ssh_command w cfg host cmd st)) = False \<and>
      fst (snd (fst (run_ssh_command w cfg host cmd st))) = strip err)
   \<and> (rc \<noteq> 0 \<and> remote w (length (ssh_log st)) host cmd = Exited rc out err \<and> \<not> utf8 err \<longrightarrow>
      fst (fst (run_ssh_command w cfg host cmd st)) = False \<and>
      fst (snd (fst (run_ssh_command w cfg host cmd st))) = decode_error w err)
   \<and> (remote w (length (ssh_log st)) host cmd = Failed msg \<longrightarrow>
      fst (fst (run_ssh_command w cfg host cmd st)) = False \<and>
      fst (snd (fst (run_ssh_command w cfg host cmd st))) = msg)"
  by (simp add: run_ssh_command_def ssh_attempt_def time_time_def decode_def split: prod.splits)

theorem run_ssh_command_cases_witness:
  "fst (fst (run_ssh_command ex_world ex_cfg ''gpu04.example.com'' ''true'' init_monitor)) = False
   \<and> fst (snd (fst (run_ssh_command ex_world ex_cfg ''gpu04.example.com'' ''true'' init_monitor)))
       = ''SSH timeout after 5s''
   \<and> fst (fst (run_ssh_command ex_world ex_cfg ''gpu06.example.com'' ''true'' init_monitor)) = True
   \<and> fst (snd (fst (run_ssh_command ex_world ex_cfg ''gpu06.example.com'' ''true'' init_monitor)))
       = ''ok''
   \<and> fst (fst (run_ssh_command ex_world ex_cfg ''gpu05.example.com'' ''true'' init_monitor)) = False
   \<and> fst (snd (fst (run_ssh_command ex_world ex_cfg ''gpu05.example.com'' ''true'' init_monitor)))
       = ex_decode_message
   \<and> fst (fst (run_ssh_command ex_world ex_cfg ''gpu03.example.com'' ''true'' init_monitor)) = False
   \<and> fst (snd (fst (run_ssh_command ex_world ex_cfg ''gpu03.example.com'' ''true'' init_monitor)))
       = ''Connection refused''
   \<and> fst (fst (run_ssh_command ex_world ex_cfg ''gpu07.example.com'' ''true'' init_monitor)) = False
   \<and> fst (snd (fst (run_ssh_command ex_world ex_cfg ''gpu07.example.com'' ''true'' init_monitor)))
       = ''No such file or directory''"
  using run_ssh_command_cases [where w = ex_world and cfg = ex_cfg and st = init_monitor
      and host = "''gpu04.example.com''" and cmd = "''true''" and out = "[]" and err = "[]"
      and rc = 1 and msg = "[]"]
    run_ssh_command_cases [where w = ex_world and cfg = ex_cfg and st = init_monitor
      and host = "''gpu06.example.com''" and cmd = "''true''" and out = ex_padded_ok
      and err = "[]" and rc = 1 and msg = "[]"]
    run_ssh_command_cases [where w = ex_world and cfg = ex_cfg and st = init_monitor
      and host = "''gpu05.example.com''" and cmd = "''true''" and out = "[CHR 0xFF]"
      and err = "[]" and rc = 1 and msg = "[]"]
    run_ssh_command_cases [where w = ex_world and cfg = ex_cfg and st = init_monitor
      and host = "''gpu03.example.com''" and cmd = "''true''" and rc = 255
      and out = "[]" and err = ex_refused and msg = "[]"]
    run_ssh_command_cases [where w = ex_world and cfg = ex_cfg and st = init_monitor
      and host = "''gpu07.example.com''" and cmd = "''true''" and rc = 1
      and out = "[]" and err = "[]" and msg = "''No such file or directory''"]
  by (simp add: ex_world_def init_monitor_def ex_timeout_text ex_utf8_padded ex_strip_padded
      ex_not_utf8 ex_utf8_refused ex_strip_refused)

text \<open>
  The claim as it was stated fails where the process exits with status zero and
  prints bytes that are not UTF-8: \<^verbatim>\<open>decode\<close> raises inside the \<^verbatim>\<open>try\<close>, and the
  catch-all handler turns it into a failure.
\<close>

theorem zero_exit_undecodable_counterexample:
  "remote ex_world 0 ''gpu05.example.com'' ''true'' = Exited 0 [CHR 0xFF] []
   \<and> fst (run_ssh_command ex_world ex_cfg ''gpu05.example.com'' ''true'' init_monitor) =
     (False, ex_decode_message, 20000)"
  by (simp add: run_ssh_command_def ssh_attempt_def time_time_def decode_def ex_world_def
      init_monitor_def ex_not_utf8)

subsection \<open>What the operations do to the monitor\<close>


lemma run_ssh_cache [simp]: "cache (snd (run_ssh_command w cfg h c st)) = cache st"
  by (auto simp add: run_ssh_command_def ssh_attempt_def time_time_def Let_def
      split: prod.splits sum.splits raised.splits ssh_outcome.splits if_splits)

lemma run_ssh_log [simp]:
  "ssh_log (snd (run_ssh_command w cfg h c st)) = ssh_log st @ [(h, c)]"
  by (auto simp add: run_ssh_command_def ssh_attempt_def time_time_def Let_def
      split: prod.splits sum.splits raised.splits ssh_outcome.splits if_splits)

lemma get_server_status_hit:
  assumes "cache st (cache_key_of (cfg_id server)) = Some (s, ts)"
    and "clock w (Suc (ticks st)) - ts < real_of_int (settings_get cfg ''cache_ttl'' 30)"
  shows "get_server_status w cfg server st = (s, st\<lparr>ticks := Suc (Suc (ticks st))\<rparr>)"
  using assms
  by (simp add: get_server_status_def is_cache_valid_def get_cached_def time_time_def)

lemma get_server_status_stale:
  assumes "cache st (cache_key_of (cfg_id server)) = Some (s, ts)"
    and "\<not> clock w (Suc (ticks st)) - ts < real_of_int (settings_get cfg ''cache_ttl'' 30)"
  shows "get_server_status w cfg server st =
           query_server w cfg server (st\<lparr>ticks := Suc (Suc (ticks st))\<rparr>)"
  using assms
  by (simp add: get_server_status_def is_cache_valid_def get_cached_def time_time_def)

lemma get_server_status_absent:
  assumes "cache st (cache_key_of (cfg_id server)) = None"
  shows "get_server_status w cfg server st =
           query_server w cfg server (st\<lparr>ticks := Suc (ticks st)\<rparr>)"
  using assms
  by (simp add: get_server_status_def is_cache_valid_def get_cached_def time_time_def)

lemma query_server_id [simp]: "server_id (fst (query_server w cfg server st)) = cfg_id server"
  by (simp add: query_server_def Let_def split: prod.splits)

lemma query_server_consistent [simp]: "status_consistent (fst (query_server w cfg server st))"
  by (simp add: query_server_def Let_def status_consistent_def split: prod.splits)

lemma query_server_log [simp]:
  "ssh_log (snd (query_server w cfg server st)) = ssh_log st @ [(hostname server, nvidia_smi_command)]"
  by (simp add: query_server_def Let_def set_cache_def time_time_def case_prod_beta)

lemma query_server_cache:
  "cache (snd (query_server w cfg server st)) =
     (cache st)(cache_key_of (cfg_id server) \<mapsto>
        (fst (query_server w cfg server st), clock w (ticks (snd (query_server w cfg server st)) - 1)))"
  by (simp add: query_server_def Let_def set_cache_def time_time_def case_prod_beta)

lemma query_server_cache_ok: "cache_ok st \<Longrightarrow> cache_ok (snd (query_server w cfg server st))"
proof -
  assume ok: "cache_ok st"
  show ?thesis
    unfolding cache_ok_def query_server_cache using ok
    by (auto simp: cache_ok_def cache_key_of_def)
qed

lemma cache_ok_ticks [simp]: "cache_ok (st\<lparr>ticks := n\<rparr>) = cache_ok st"
  by (simp add: cache_ok_def)

lemma get_server_status_cases:
  "(\<exists>s ts. cache st (cache_key_of (cfg_id server)) = Some (s, ts) \<and>
      get_server_status w cfg server st = (s, st\<lparr>ticks := Suc (Suc (ticks st))\<rparr>))
   \<or> (\<exists>n. get_server_status w cfg server st = query_server w cfg server (st\<lparr>ticks := n\<rparr>))"
proof (cases "cache st (cache_key_of (cfg_id server))")
  case None
  then show ?thesis using get_server_status_absent by blast
next
  case (Some e)
  obtain s ts where e: "e = (s, ts)" by (cases e)
  show ?thesis
  proof (cases "clock w (Suc (ticks st)) - ts < real_of_int (settings_get cfg ''cache_ttl'' 30)")
    case True
    then show ?thesis using get_server_status_hit Some e by blast
  next
    case False
    then show ?thesis using get_server_status_stale Some e by blast
  qed
qed

lemma get_server_status_ok:
  assumes ok: "cache_ok st"
  shows "cache_ok (snd (get_server_status w cfg server st))
     \<and> server_id (fst (get_server_status w cfg server st)) = cfg_id server
     \<and> status_consistent (fst (get_server_status w cfg server st))"
  using get_server_status_cases [of st server w cfg]
proof (elim disjE exE conjE)
  fix s ts
  assume c: "cache st (cache_key_of (cfg_id server)) = Some (s, ts)"
    and g: "get_server_status w cfg server st = (s, st\<lparr>ticks := Suc (Suc (ticks st))\<rparr>)"
  from ok c have "server_id s = cfg_id server \<and> status_consistent s"
    unfolding cache_ok_def by blast
  with ok g show ?thesis by simp
next
  fix n
  assume g: "get_server_status w cfg server st = query_server w cfg server (st\<lparr>ticks := n\<rparr>)"
  have "cache_ok (st\<lparr>ticks := n\<rparr>)" using ok by simp
  then have "cache_ok (snd (query_server w cfg server (st\<lparr>ticks := n\<rparr>)))"
    by (rule query_server_cache_ok)
  with g show ?thesis by simp
qed

lemma gather_ok:
  assumes "cache_ok st"
  shows "cache_ok (snd (gather w cfg srvs st))
     \<and> fst (gather w cfg srvs st) = map Inr (map projr (fst (gather w cfg srvs st)))
     \<and> map server_id (map projr (fst (gather w cfg srvs st))) = map cfg_id srvs
     \<and> (\<forall>s\<in>set (map projr (fst (gather w cfg srvs st))). status_consistent s)"
  using assms
proof (induction srvs arbitrary: st)
  case Nil
  then show ?case by simp
next
  case (Cons a srvs)
  have ok1: "cache_ok (snd (get_server_status w cfg a st))"
    using get_server_status_ok [OF Cons.prems] by blast
  show ?case
    using Cons.IH [OF ok1] get_server_status_ok [OF Cons.prems, of w cfg a]
    by (simp add: case_prod_beta Let_def)
qed

lemma valid_statuses_Inr:
  "length srvs = length ss \<Longrightarrow> valid_statuses w srvs (map Inr ss) st = (ss, st)"
proof (induction srvs arbitrary: ss)
  case Nil
  then show ?case by simp
next
  case (Cons a srvs)
  then obtain s ss' where "ss = s # ss'" by (cases ss) auto
  with Cons show ?case by simp
qed

lemma gather_length: "length (fst (gather w cfg srvs st)) = length srvs"
  by (induction srvs arbitrary: st) (simp_all add: case_prod_beta Let_def)


lemma summarise_snd: "snd (summarise w valid st) = st\<lparr>ticks := Suc (ticks st)\<rparr>"
  by (simp add: summarise_def time_time_def)

lemma cache_ok_cong: "cache st' = cache st \<Longrightarrow> cache_ok st' = cache_ok st"
  by (simp add: cache_ok_def)

lemma gather_valid:
  assumes "cache_ok st"
  shows "valid_statuses w srvs (fst (gather w cfg srvs st)) (snd (gather w cfg srvs st)) =
           (map projr (fst (gather w cfg srvs st)), snd (gather w cfg srvs st))"
proof -
  have e: "fst (gather w cfg srvs st) = map Inr (map projr (fst (gather w cfg srvs st)))"
    using gather_ok [OF assms] by blast
  have l: "length srvs = length (map projr (fst (gather w cfg srvs st)))"
    by (simp add: gather_length)
  show ?thesis
    using valid_statuses_Inr [OF l, of w "snd (gather w cfg srvs st)"] e by simp
qed

lemma get_cluster_status_ok:
  assumes ok: "cache_ok st"
  shows "cache_ok (snd (get_cluster_status w cfg server_ids st))
     \<and> map server_id (cluster_servers (fst (get_cluster_status w cfg server_ids st))) =
         map cfg_id (servers_to_check cfg server_ids)
     \<and> total_servers (fst (get_cluster_status w cfg server_ids st)) =
         length (servers_to_check cfg server_ids)
     \<and> (\<forall>s\<in>set (cluster_servers (fst (get_cluster_status w cfg server_ids st))).
          status_consistent s)"
proof -
  let ?srvs = "servers_to_check cfg server_ids"
  let ?g = "gather w cfg ?srvs st"
  have g: "cache_ok (snd ?g)"
    "map server_id (map projr (fst ?g)) = map cfg_id ?srvs"
    "\<forall>s\<in>set (map projr (fst ?g)). status_consistent s"
    using gather_ok [OF ok, of w cfg ?srvs] by blast+
  have l: "length (map projr (fst ?g)) = length ?srvs"
    by (simp add: gather_length)
  show ?thesis
    using g l
    by (simp add: get_cluster_status_eq gather_valid [OF ok] summarise_fst summarise_snd)
qed

lemma get_user_usage_snd:
  "snd (get_user_usage w cfg uname server_ids st) =
     (snd (get_cluster_status w cfg server_ids st))
       \<lparr>ticks := Suc (ticks (snd (get_cluster_status w cfg server_ids st)))\<rparr>"
  by (simp add: get_user_usage_def Let_def time_time_def case_prod_beta)

lemma get_user_usage_ok:
  "cache_ok st \<Longrightarrow> cache_ok (snd (get_user_usage w cfg uname server_ids st))"
  using get_cluster_status_ok [of st w cfg server_ids] by (simp add: get_user_usage_snd)

lemma kill_step_cache:
  "cache (snd (kill_step w cfg item acc)) = cache (snd acc)
   \<or> cache (snd (kill_step w cfg item acc)) = (cache (snd acc))(cache_key_of (fst item) := None)"
  by (simp add: kill_step_def case_prod_beta Let_def split: option.splits)

lemma cache_ok_remove:
  "cache_ok st \<Longrightarrow> cache st' = (cache st)(k := None) \<Longrightarrow> cache_ok st'"
  by (simp add: cache_ok_def)

lemma kill_step_ok: "cache_ok (snd acc) \<Longrightarrow> cache_ok (snd (kill_step w cfg item acc))"
  using kill_step_cache [of w cfg item acc] cache_ok_cong cache_ok_remove by blast

lemma kill_loop_ok: "cache_ok (snd acc) \<Longrightarrow> cache_ok (snd (kill_loop w cfg items acc))"
  unfolding kill_loop_def
  by (induction items arbitrary: acc) (simp_all add: kill_step_ok)

lemma kill_user_tasks_ok:
  "cache_ok st \<Longrightarrow> cache_ok (snd (kill_user_tasks w cfg uname server_ids confirm st))"
  using get_user_usage_ok [of st w cfg uname server_ids]
  by (simp add: kill_user_tasks_def Let_def case_prod_beta kill_loop_ok)

lemma reachable_cache_ok: "reachable w cfg st \<Longrightarrow> cache_ok st"
proof (induction rule: reachable.induct)
  case start
  show ?case by (simp add: cache_ok_def init_monitor_def)
next
  case (status st server_ids)
  then show ?case using get_cluster_status_ok by blast
next
  case (usage st uname server_ids)
  then show ?case using get_user_usage_ok by blast
next
  case (kill st uname server_ids confirm)
  then show ?case using kill_user_tasks_ok by blast
qed


subsection \<open>The concrete cluster, evaluated\<close>


lemma ex_strip: "strip ex_output = 
     ''GPU 0: A100, 85% utilization, 15000/16000 MB'' @ [CHR 0x0A]
     @ ''PID 12345 testuser GPU:0 2048MB Memory python'' @ [CHR 0x0A]
     @ ''PID 777 otheruser GPU:0 1024MB Memory jupyter''"
  by code_simp

lemma ex_parse_stripped:
  "parse_nvidia_smi_output (strip ex_output) =
     ([\<lparr>index = 0, name = ''Tesla V100'', utilization_percent = 85,
        gpu_memory_used_mb = 15000, memory_total_mb = 16000,
        memory_free_mb = 1000, temperature_c = None, power_draw_w = None\<rparr>],
      [\<lparr>pid = 12345, username = ''testuser'', gpu_index = 0, memory_used_mb = 2048,
        process_name = ''Memory python''\<rparr>,
       \<lparr>pid = 777, username = ''otheruser'', gpu_index = 0, memory_used_mb = 1024,
        process_name = ''Memory jupyter''\<rparr>])"
  by code_simp

lemma ex_not_kill: "take 4 nvidia_smi_command \<noteq> ''kill''"
  by (simp add: nvidia_smi_command_def)

lemma ex_parse_stripped2:
  "parse_nvidia_smi_output (strip ex_output2) =
     ([\<lparr>index = 0, name = ''Tesla V100'', utilization_percent = 10,
        gpu_memory_used_mb = 100, memory_total_mb = 16000,
        memory_free_mb = 15900, temperature_c = None, power_draw_w = None\<rparr>,
       \<lparr>index = 1, name = ''Tesla V100'', utilization_percent = 0,
        gpu_memory_used_mb = 0, memory_total_mb = 16000,
        memory_free_mb = 16000, temperature_c = None, power_draw_w = None\<rparr>],
      [\<lparr>pid = 222, username = ''testuser'', gpu_index = 0, memory_used_mb = 512,
        process_name = ''Memory python''\<rparr>])"
  by code_simp

lemma ex_run_status_up:
  "run_ssh_command ex_world cfg ''gpu01.example.com'' nvidia_smi_command st =
     ((True, strip ex_output, 10000),
      st\<lparr>ssh_log := ssh_log st @ [(''gpu01.example.com'', nvidia_smi_command)],
         ticks := Suc (Suc (ticks st))\<rparr>)"
  using ex_not_kill
  by (auto simp add: run_ssh_command_def ssh_attempt_def time_time_def decode_def ex_world_def
      ex_utf8_output)

lemma ex_run_status_up2:
  "run_ssh_command ex_world cfg ''gpu02.example.com'' nvidia_smi_command st =
     ((True, strip ex_output2, 10000),
      st\<lparr>ssh_log := ssh_log st @ [(''gpu02.example.com'', nvidia_smi_command)],
         ticks := Suc (Suc (ticks st))\<rparr>)"
  using ex_not_kill
  by (auto simp add: run_ssh_command_def ssh_attempt_def time_time_def decode_def ex_world_def
      ex_utf8_output2)

lemma ex_run_status_down:
  "run_ssh_command ex_world cfg ''gpu03.example.com'' cmd st =
     ((False, ''Connection refused'', 10000),
      st\<lparr>ssh_log := ssh_log st @ [(''gpu03.example.com'', cmd)], ticks := Suc (Suc (ticks st))\<rparr>)"
  by (simp add: run_ssh_command_def ssh_attempt_def time_time_def decode_def ex_world_def
      ex_utf8_refused ex_strip_refused)

lemma ex_clock [simp]: "clock ex_world n = 10 * real n"
  by (simp add: ex_world_def)

lemma ex_query_up:
  "hostname server = ''gpu01.example.com'' \<Longrightarrow>
   query_server ex_world cfg server st =
     (ex_up (cfg_id server) (hostname server) (clock ex_world (Suc (Suc (ticks st)))),
      st\<lparr>ssh_log := ssh_log st @ [(hostname server, nvidia_smi_command)],
         ticks := Suc (Suc (Suc (Suc (ticks st)))),
         cache := (cache st)(cache_key_of (cfg_id server) \<mapsto>
            (ex_up (cfg_id server) (hostname server) (clock ex_world (Suc (Suc (ticks st)))),
             clock ex_world (Suc (Suc (Suc (ticks st))))))\<rparr>)"
  by (simp add: query_server_def ex_run_status_up set_cache_def time_time_def ex_up_def
      case_prod_beta Let_def)

lemma ex_query_up2:
  "hostname server = ''gpu02.example.com'' \<Longrightarrow>
   query_server ex_world cfg server st =
     (ex_up2 (cfg_id server) (hostname server) (clock ex_world (Suc (Suc (ticks st)))),
      st\<lparr>ssh_log := ssh_log st @ [(hostname server, nvidia_smi_command)],
         ticks := Suc (Suc (Suc (Suc (ticks st)))),
         cache := (cache st)(cache_key_of (cfg_id server) \<mapsto>
            (ex_up2 (cfg_id server) (hostname server) (clock ex_world (Suc (Suc (ticks st)))),
             clock ex_world (Suc (Suc (Suc (ticks st))))))\<rparr>)"
  by (simp add: query_server_def ex_run_status_up2 set_cache_def time_time_def ex_up2_def
      case_prod_beta Let_def)

lemma ex_query_down:
  "hostname server = ''gpu03.example.com'' \<Longrightarrow>
   query_server ex_world cfg server st =
     (ex_down (cfg_id server) (hostname server) (clock ex_world (Suc (Suc (ticks st)))),
      st\<lparr>ssh_log := ssh_log st @ [(hostname server, nvidia_smi_command)],
         ticks := Suc (Suc (Suc (Suc (ticks st)))),
         cache := (cache st)(cache_key_of (cfg_id server) \<mapsto>
            (ex_down (cfg_id server) (hostname server) (clock ex_world (Suc (Suc (ticks st)))),
             clock ex_world (Suc (Suc (Suc (ticks st))))))\<rparr>)"
  by (simp add: query_server_def ex_run_status_down set_cache_def time_time_def ex_down_def
      case_prod_beta Let_def)








lemma ex_up_sel [simp]:
  "server_id (ex_up sid host t) = sid"
  "online (ex_up sid host t) = True"
  "gpus (ex_up sid host t) =
     [\<lparr>index = 0, name = ''Tesla V100'', utilization_percent = 85,
       gpu_memory_used_mb = 15000, memory_total_mb = 16000,
       memory_free_mb = 1000, temperature_c = None, power_draw_w = None\<rparr>]"
  "processes (ex_up sid host t) =
     [\<lparr>pid = 12345, username = ''testuser'', gpu_index = 0, memory_used_mb = 2048,
       process_name = ''Memory python''\<rparr>,
      \<lparr>pid = 777, username = ''otheruser'', gpu_index = 0, memory_used_mb = 1024,
       process_name = ''Memory jupyter''\<rparr>]"
  by (simp_all add: ex_up_def ex_parse_stripped)

lemma ex_up2_sel [simp]:
  "server_id (ex_up2 sid host t) = sid"
  "online (ex_up2 sid host t) = True"
  "length (gpus (ex_up2 sid host t)) = 2"
  "processes (ex_up2 sid host t) =
     [\<lparr>pid = 222, username = ''testuser'', gpu_index = 0, memory_used_mb = 512,
       process_name = ''Memory python''\<rparr>]"
  by (simp_all add: ex_up2_def ex_parse_stripped2)

lemma ex_down_sel [simp]:
  "server_id (ex_down sid host t) = sid"
  "online (ex_down sid host t) = False"
  "gpus (ex_down sid host t) = []"
  "processes (ex_down sid host t) = []"
  by (simp_all add: ex_down_def)

lemma ex_servers:
  "servers ex_cfg =
     [\<lparr>cfg_id = ''gpu01'', hostname = ''gpu01.example.com'', description = []\<rparr>,
      \<lparr>cfg_id = ''gpu02'', hostname = ''gpu02.example.com'', description = []\<rparr>,
      \<lparr>cfg_id = ''gpu03'', hostname = ''gpu03.example.com'', description = []\<rparr>]"
  by (simp add: ex_cfg_def)

lemma ex_gather:
  "gather ex_world ex_cfg (servers ex_cfg) init_monitor =
     ([Inr (ex_up ''gpu01'' ''gpu01.example.com'' 30),
       Inr (ex_up2 ''gpu02'' ''gpu02.example.com'' 80),
       Inr (ex_down ''gpu03'' ''gpu03.example.com'' 130)],
      ex_after_status\<lparr>ticks := 15\<rparr>)"
  by (simp add: ex_servers get_server_status_absent ex_query_up ex_query_up2 ex_query_down
      init_monitor_def cache_key_of_def ex_after_status_def)

lemma ex_cluster:
  "get_cluster_status ex_world ex_cfg None init_monitor =
     (\<lparr>cluster_servers =
         [ex_up ''gpu01'' ''gpu01.example.com'' 30,
          ex_up2 ''gpu02'' ''gpu02.example.com'' 80,
          ex_down ''gpu03'' ''gpu03.example.com'' 130],
       total_gpus = 3, online_servers = 2, total_servers = 3,
       cluster_last_updated = 150\<rparr>,
      ex_after_status)"
proof -
  have v: "valid_statuses ex_world (servers ex_cfg)
             [Inr (ex_up ''gpu01'' ''gpu01.example.com'' 30),
              Inr (ex_up2 ''gpu02'' ''gpu02.example.com'' 80),
              Inr (ex_down ''gpu03'' ''gpu03.example.com'' 130)] (ex_after_status\<lparr>ticks := 15\<rparr>) =
           ([ex_up ''gpu01'' ''gpu01.example.com'' 30,
             ex_up2 ''gpu02'' ''gpu02.example.com'' 80,
             ex_down ''gpu03'' ''gpu03.example.com'' 130], ex_after_status\<lparr>ticks := 15\<rparr>)"
    by (simp add: ex_servers)
  have g: "get_cluster_status ex_world ex_cfg None init_monitor =
     summarise ex_world
       [ex_up ''gpu01'' ''gpu01.example.com'' 30,
        ex_up2 ''gpu02'' ''gpu02.example.com'' 80,
        ex_down ''gpu03'' ''gpu03.example.com'' 130] (ex_after_status\<lparr>ticks := 15\<rparr>)"
    by (simp add: get_cluster_status_def servers_to_check_def ex_gather v)
  show ?thesis
    unfolding g by (simp add: summarise_def time_time_def ex_after_status_def)
qed

lemma usage_step_eq:
  "usage_step uname s (a, b, c) =
     (if online s \<and> filter (\<lambda>p. username p = uname) (processes s) \<noteq> [] then
        (a @ filter (\<lambda>p. username p = uname) (processes s),
         dict_set b (server_id s) (filter (\<lambda>p. username p = uname) (processes s)),
         c @ [server_id s])
      else (a, b, c))"
  by (simp add: usage_step_def Let_def)

lemma ex_usage:
  "get_user_usage ex_world ex_cfg ''testuser'' None init_monitor =
     (\<lparr>usage_username = ''testuser'',
       total_processes = 2,
       total_memory_used_mb = 2560,
       servers_used = [''gpu01'', ''gpu02''],
       processes_by_server =
         [(''gpu01'', [\<lparr>pid = 12345, username = ''testuser'', gpu_index = 0,
                        memory_used_mb = 2048, process_name = ''Memory python''\<rparr>]),
          (''gpu02'', [\<lparr>pid = 222, username = ''testuser'', gpu_index = 0,
                        memory_used_mb = 512, process_name = ''Memory python''\<rparr>])],
       usage_last_updated = 160\<rparr>,
      ex_after_status\<lparr>ticks := 17\<rparr>)"
  by (simp add: get_user_usage_def ex_cluster usage_loop_def usage_step_eq time_time_def
      ex_after_status_def)

subsection \<open>Every status is consistent\<close>

lemma valid_statuses_consistent:
  "\<forall>s. Inr s \<in> set results \<longrightarrow> status_consistent s \<Longrightarrow>
   \<forall>s\<in>set (fst (valid_statuses w srvs results st)). status_consistent s"
proof (induction results arbitrary: srvs st)
  case Nil
  show ?case by (cases srvs) simp_all
next
  case (Cons r results)
  have ih: "\<And>srvs st. \<forall>s\<in>set (fst (valid_statuses w srvs results st)). status_consistent s"
    using Cons.IH Cons.prems by simp
  show ?case
  proof (cases srvs)
    case Nil
    then show ?thesis by simp
  next
    case (Cons server rest)
    show ?thesis
    proof (cases r)
      case (Inl msg)
      have "status_consistent
              \<lparr>server_id = cfg_id server, status_hostname = hostname server, online = False,
               error_message = Some msg, gpus = [], processes = [],
               last_updated = clock w (ticks st), response_time_ms = None\<rparr>"
        by (simp add: status_consistent_def)
      with ih show ?thesis
        unfolding Cons Inl by (simp add: case_prod_beta Let_def time_time_def)
    next
      case (Inr status)
      have "status_consistent status" using Cons.prems Inr by simp
      with ih show ?thesis
        unfolding Cons Inr by (simp add: case_prod_beta Let_def)
    qed
  qed
qed

lemma cache_ok_init: "cache_ok init_monitor"
  by (simp add: cache_ok_def init_monitor_def)

text \<open>
  C8. In every state a monitor can reach, the status that resolving a server
  returns, and every status in the result of \<^verbatim>\<open>get_cluster_status\<close>, has an error
  message exactly when it is offline, and no GPUs and no processes when it is
  offline. The loop that substitutes a synthetic offline status for each exception
  keeps that shape: if the statuses among the gathered results have it, every status
  the loop returns has it.
\<close>

theorem statuses_consistent:
  assumes "reachable w cfg st"
  shows "status_consistent (fst (get_server_status w cfg server st))
     \<and> (\<forall>s\<in>set (cluster_servers (fst (get_cluster_status w cfg server_ids st))).
            status_consistent s)
     \<and> ((\<forall>s. Inr s \<in> set results \<longrightarrow> status_consistent s) \<longrightarrow>
          (\<forall>s\<in>set (fst (valid_statuses w srvs results st')). status_consistent s))"
proof -
  have ok: "cache_ok st" using assms by (rule reachable_cache_ok)
  from get_cluster_status_ok [OF ok, of w cfg server_ids]
  have a: "\<forall>s\<in>set (cluster_servers (fst (get_cluster_status w cfg server_ids st))).
            status_consistent s" by (elim conjE)
  from get_server_status_ok [OF ok, of w cfg server]
  have b: "status_consistent (fst (get_server_status w cfg server st))" by (elim conjE)
  have c: "(\<forall>s. Inr s \<in> set results \<longrightarrow> status_consistent s) \<longrightarrow>
          (\<forall>s\<in>set (fst (valid_statuses w srvs results st')). status_consistent s)"
    using valid_statuses_consistent by blast
  from a b c show ?thesis by (intro conjI)
qed

theorem statuses_consistent_witness:
  "reachable ex_world ex_cfg init_monitor
   \<and> status_consistent (fst (get_server_status ex_world ex_cfg ex_srv1 init_monitor))
   \<and> list_all status_consistent
        (cluster_servers (fst (get_cluster_status ex_world ex_cfg None init_monitor)))
   \<and> length (cluster_servers (fst (get_cluster_status ex_world ex_cfg None init_monitor))) = 3
   \<and> list_all status_consistent
        (fst (valid_statuses ex_world (servers ex_cfg) [Inl ''boom''] init_monitor))
   \<and> map error_message
        (fst (valid_statuses ex_world (servers ex_cfg) [Inl ''boom''] init_monitor)) = [Some ''boom'']"
proof -
  have r: "reachable ex_world ex_cfg init_monitor"
    by (rule reachable.start)
  have n: "length (cluster_servers (fst (get_cluster_status ex_world ex_cfg None init_monitor))) = 3"
  proof -
    have "map server_id (cluster_servers (fst (get_cluster_status ex_world ex_cfg None init_monitor)))
            = map cfg_id (servers_to_check ex_cfg None)"
      using get_cluster_status_ok [OF cache_ok_init, of ex_world ex_cfg None] by blast
    then have "length (map server_id
                 (cluster_servers (fst (get_cluster_status ex_world ex_cfg None init_monitor))))
            = length (map cfg_id (servers_to_check ex_cfg None))"
      by simp
    then show ?thesis
      by (simp add: servers_to_check_def ex_cfg_def)
  qed
  have v: "map error_message
        (fst (valid_statuses ex_world (servers ex_cfg) [Inl ''boom''] init_monitor)) = [Some ''boom'']"
    by (simp add: ex_cfg_def time_time_def)
  have p: "\<forall>s. Inr s \<in> set [Inl ''boom''] \<longrightarrow> status_consistent s"
    by simp
  from statuses_consistent [OF r, of ex_srv1 None "[Inl ''boom'']" "servers ex_cfg" init_monitor] p
  show ?thesis
    using r n v by (simp add: list_all_iff)
qed

subsection \<open>The cache window\<close>




subsection \<open>Which servers a cluster status holds\<close>


lemma servers_to_check_set_eq:
  "set ids = set ids' \<Longrightarrow> servers_to_check cfg (Some ids) = servers_to_check cfg (Some ids')"
  by (auto simp: servers_to_check_def)

lemma servers_to_check_subset: "set (servers_to_check cfg server_ids) \<subseteq> set (servers cfg)"
  by (auto simp: servers_to_check_def split: option.splits)

lemma servers_to_check_distinct:
  "distinct (map cfg_id (servers cfg)) \<Longrightarrow> distinct (map cfg_id (servers_to_check cfg server_ids))"
  by (auto simp: servers_to_check_def distinct_map_filter split: option.splits)

text \<open>
  C3, as amended. In every state a monitor can reach, the servers in the result of
  \<^verbatim>\<open>get_cluster_status\<close> are, by id and in configuration order, the configured
  servers whose id is in the filter, and all configured servers when the filter is
  absent or is the empty list; \<^verbatim>\<open>total_servers\<close> is their number; no id outside the
  configuration occurs; and two filters with the same elements, in any order and
  with any repetitions, select the same servers in the same order.
\<close>

theorem cluster_status_selects_configured:
  assumes "reachable w cfg st"
  shows "map server_id (cluster_servers (fst (get_cluster_status w cfg server_ids st))) =
           map cfg_id
             (case server_ids of
                None \<Rightarrow> servers cfg
              | Some ids \<Rightarrow>
                  if ids = [] then servers cfg
                  else filter (\<lambda>s. cfg_id s \<in> set ids) (servers cfg))
     \<and> total_servers (fst (get_cluster_status w cfg server_ids st)) =
           length
             (case server_ids of
                None \<Rightarrow> servers cfg
              | Some ids \<Rightarrow>
                  if ids = [] then servers cfg
                  else filter (\<lambda>s. cfg_id s \<in> set ids) (servers cfg))
     \<and> set (map server_id (cluster_servers (fst (get_cluster_status w cfg server_ids st))))
           \<subseteq> set (map cfg_id (servers cfg))
     \<and> (set ids = set ids' \<longrightarrow>
           map server_id (cluster_servers (fst (get_cluster_status w cfg (Some ids) st))) =
           map server_id (cluster_servers (fst (get_cluster_status w cfg (Some ids') st))))"
proof -
  have ok: "cache_ok st" using assms by (rule reachable_cache_ok)
  have m: "\<And>f. map server_id (cluster_servers (fst (get_cluster_status w cfg f st))) =
             map cfg_id (servers_to_check cfg f)"
    using get_cluster_status_ok [OF ok] by blast
  have n: "total_servers (fst (get_cluster_status w cfg server_ids st)) =
             length (servers_to_check cfg server_ids)"
    using get_cluster_status_ok [OF ok] by blast
  have a: "map server_id (cluster_servers (fst (get_cluster_status w cfg server_ids st))) =
           map cfg_id
             (case server_ids of
                None \<Rightarrow> servers cfg
              | Some ids \<Rightarrow>
                  if ids = [] then servers cfg
                  else filter (\<lambda>s. cfg_id s \<in> set ids) (servers cfg))"
    using m [of server_ids] by (simp add: servers_to_check_def)
  have b: "total_servers (fst (get_cluster_status w cfg server_ids st)) =
           length
             (case server_ids of
                None \<Rightarrow> servers cfg
              | Some ids \<Rightarrow>
                  if ids = [] then servers cfg
                  else filter (\<lambda>s. cfg_id s \<in> set ids) (servers cfg))"
    using n by (simp add: servers_to_check_def)
  have c: "set (map server_id (cluster_servers (fst (get_cluster_status w cfg server_ids st))))
           \<subseteq> set (map cfg_id (servers cfg))"
    using servers_to_check_subset [of cfg server_ids] by (auto simp: m)
  have d: "set ids = set ids' \<longrightarrow>
           map server_id (cluster_servers (fst (get_cluster_status w cfg (Some ids) st))) =
           map server_id (cluster_servers (fst (get_cluster_status w cfg (Some ids') st)))"
    using servers_to_check_set_eq [of ids ids' cfg] by (simp add: m)
  from a b c d show ?thesis by (intro conjI)
qed

theorem cluster_status_selects_configured_witness:
  "reachable ex_world ex_cfg init_monitor
   \<and> map server_id (cluster_servers (fst (get_cluster_status ex_world ex_cfg
         (Some [''gpu03'', ''nope'', ''gpu01'']) init_monitor))) = [''gpu01'', ''gpu03'']
   \<and> total_servers (fst (get_cluster_status ex_world ex_cfg
         (Some [''gpu03'', ''nope'', ''gpu01'']) init_monitor)) = 2
   \<and> map server_id (cluster_servers (fst (get_cluster_status ex_world ex_cfg None init_monitor)))
       = [''gpu01'', ''gpu02'', ''gpu03'']"
proof -
  have r: "reachable ex_world ex_cfg init_monitor"
    by (rule reachable.start)
  from cluster_status_selects_configured [OF r, where server_ids = "Some [''gpu03'', ''nope'', ''gpu01'']"
      and ids = "[]" and ids' = "[]"]
  have a: "map server_id (cluster_servers (fst (get_cluster_status ex_world ex_cfg
         (Some [''gpu03'', ''nope'', ''gpu01'']) init_monitor))) = [''gpu01'', ''gpu03'']
   \<and> total_servers (fst (get_cluster_status ex_world ex_cfg
         (Some [''gpu03'', ''nope'', ''gpu01'']) init_monitor)) = 2"
    by (simp add: ex_servers)
  from cluster_status_selects_configured [OF r, where server_ids = None
      and ids = "[]" and ids' = "[]"]
  have b: "map server_id (cluster_servers (fst (get_cluster_status ex_world ex_cfg None init_monitor)))
       = [''gpu01'', ''gpu02'', ''gpu03'']"
    by (simp add: ex_servers)
  from r a b show ?thesis by simp
qed

text \<open>
  The claim as it was stated fails for the empty filter: \<^verbatim>\<open>if server_ids:\<close> takes the
  empty list for no filter, and all three servers are resolved, where no configured
  server has its id in the filter.
\<close>

theorem empty_filter_counterexample:
  "map server_id (cluster_servers (fst (get_cluster_status ex_world ex_cfg (Some []) init_monitor)))
     = [''gpu01'', ''gpu02'', ''gpu03'']
   \<and> total_servers (fst (get_cluster_status ex_world ex_cfg (Some []) init_monitor)) = 3
   \<and> filter (\<lambda>s. cfg_id s \<in> set []) (servers ex_cfg) = []"
proof -
  have s: "servers_to_check ex_cfg (Some []) = servers ex_cfg"
    by (simp add: servers_to_check_def)
  have "map server_id (cluster_servers (fst (get_cluster_status ex_world ex_cfg (Some []) init_monitor)))
          = map cfg_id (servers_to_check ex_cfg (Some []))"
    and "total_servers (fst (get_cluster_status ex_world ex_cfg (Some []) init_monitor))
          = length (servers_to_check ex_cfg (Some []))"
    using get_cluster_status_ok [OF cache_ok_init, of ex_world ex_cfg "Some []"] by blast+
  then show ?thesis
    by (simp add: s ex_servers)
qed


subsection \<open>The usage loop\<close>

lemma dict_set_fresh: "k \<notin> set (map fst d) \<Longrightarrow> dict_set d k v = d @ [(k, v)]"
  by (induction d) auto

lemma dict_fold_distinct:
  "distinct (map fst b @ map server_id xs) \<Longrightarrow>
   foldl (\<lambda>d s. dict_set d (server_id s) (f s)) b xs = b @ map (\<lambda>s. (server_id s, f s)) xs"
proof (induction xs arbitrary: b)
  case Nil
  then show ?case by simp
next
  case (Cons x xs)
  have fresh: "server_id x \<notin> set (map fst b)" using Cons.prems by auto
  have d: "distinct (map fst (b @ [(server_id x, f x)]) @ map server_id xs)"
    using Cons.prems by auto
  show ?case
    using Cons.IH [OF d] by (simp add: dict_set_fresh [OF fresh])
qed

lemma usage_foldl:
  "foldl (\<lambda>acc s. usage_step uname s acc) (a, b, c) ss =
     (a @ concat (map (\<lambda>s. filter (\<lambda>p. username p = uname) (processes s)) (filter online ss)),
      foldl (\<lambda>d s. dict_set d (server_id s) (filter (\<lambda>p. username p = uname) (processes s))) b
        (filter (\<lambda>s. online s \<and> filter (\<lambda>p. username p = uname) (processes s) \<noteq> []) ss),
      c @ map server_id
        (filter (\<lambda>s. online s \<and> filter (\<lambda>p. username p = uname) (processes s) \<noteq> []) ss))"
proof (induction ss arbitrary: a b c)
  case Nil
  show ?case by simp
next
  case (Cons s ss)
  show ?case
    by (cases "online s \<and> filter (\<lambda>p. username p = uname) (processes s) \<noteq> []")
      (auto simp add: usage_step_eq Cons.IH)
qed

lemma usage_loop_distinct:
  assumes "distinct (map server_id ss)"
  shows "usage_loop uname ss =
     (concat (map (\<lambda>s. filter (\<lambda>p. username p = uname) (processes s)) (filter online ss)),
      map (\<lambda>s. (server_id s, filter (\<lambda>p. username p = uname) (processes s)))
        (filter (\<lambda>s. online s \<and> filter (\<lambda>p. username p = uname) (processes s) \<noteq> []) ss),
      map server_id
        (filter (\<lambda>s. online s \<and> filter (\<lambda>p. username p = uname) (processes s) \<noteq> []) ss))"
proof -
  have "distinct (map fst ([]::(string \<times> ProcessInfo list) list) @ map server_id
          (filter (\<lambda>s. online s \<and> filter (\<lambda>p. username p = uname) (processes s) \<noteq> []) ss))"
    using assms by (simp add: distinct_map_filter)
  from dict_fold_distinct [OF this] show ?thesis
    by (simp add: usage_loop_def usage_foldl)
qed

lemma get_user_usage_fst:
  "fst (get_user_usage w cfg uname server_ids st) =
     \<lparr>usage_username = uname,
      total_processes =
        length (fst (usage_loop uname (cluster_servers (fst (get_cluster_status w cfg server_ids st))))),
      total_memory_used_mb =
        sum_list (map memory_used_mb
          (fst (usage_loop uname (cluster_servers (fst (get_cluster_status w cfg server_ids st)))))),
      servers_used =
        snd (snd (usage_loop uname (cluster_servers (fst (get_cluster_status w cfg server_ids st))))),
      processes_by_server =
        fst (snd (usage_loop uname (cluster_servers (fst (get_cluster_status w cfg server_ids st))))),
      usage_last_updated = clock w (ticks (snd (get_cluster_status w cfg server_ids st)))\<rparr>"
  by (simp add: get_user_usage_def Let_def time_time_def case_prod_beta)



lemma concat_skip_empty:
  "concat (map f (filter P xs)) = concat (map f (filter (\<lambda>x. P x \<and> f x \<noteq> []) xs))"
  by (induction xs) auto

lemma map_of_keyed:
  "distinct (map server_id xs) \<Longrightarrow> s \<in> set xs \<Longrightarrow>
   map_of (map (\<lambda>s. (server_id s, f s)) xs) (server_id s) = Some (f s)"
  by (induction xs) (auto simp: image_iff)

lemma map_of_keyed_Some:
  "map_of (map (\<lambda>s. (server_id s, f s)) xs) sid = Some ps \<Longrightarrow>
   \<exists>s\<in>set xs. server_id s = sid \<and> ps = f s"
  by (induction xs) (auto split: if_splits)

lemma cluster_ids_distinct:
  assumes "reachable w cfg st" and "distinct (map cfg_id (servers cfg))"
  shows "distinct (map server_id (cluster_servers (fst (get_cluster_status w cfg server_ids st))))"
  using get_cluster_status_ok [OF reachable_cache_ok [OF assms(1)], of w cfg server_ids]
    servers_to_check_distinct [OF assms(2), of server_ids]
  by simp

lemma usage_of_cluster:
  assumes "reachable w cfg st" and "distinct (map cfg_id (servers cfg))"
    and "cs = cluster_servers (fst (get_cluster_status w cfg server_ids st))"
    and "u = fst (get_user_usage w cfg uname server_ids st)"
  shows "total_processes u =
           length (concat (map (\<lambda>s. filter (\<lambda>p. username p = uname) (processes s)) (filter online cs)))"
    and "total_memory_used_mb u =
           sum_list (map memory_used_mb
             (concat (map (\<lambda>s. filter (\<lambda>p. username p = uname) (processes s)) (filter online cs))))"
    and "servers_used u =
           map server_id
             (filter (\<lambda>s. online s \<and> filter (\<lambda>p. username p = uname) (processes s) \<noteq> []) cs)"
    and "processes_by_server u =
           map (\<lambda>s. (server_id s, filter (\<lambda>p. username p = uname) (processes s)))
             (filter (\<lambda>s. online s \<and> filter (\<lambda>p. username p = uname) (processes s) \<noteq> []) cs)"
  using usage_loop_distinct [OF cluster_ids_distinct [OF assms(1,2), of server_ids], of uname]
  by (simp_all add: assms(3,4) get_user_usage_fst)



subsection \<open>Which processes a usage summary holds\<close>

text \<open>
  C5. Server ids are unique in the data model. Take a state a monitor can reach and
  a configuration whose server ids are pairwise distinct, let \<open>cs\<close> be the servers of the cluster status that
  \<^verbatim>\<open>get_user_usage\<close> computes and \<open>u\<close> the summary it returns for the user
  \<open>uname\<close>. A process is listed under a server id in \<^verbatim>\<open>processes_by_server\<close>
  exactly when it is a process of an online server of that id in \<open>cs\<close> and its
  user name equals \<open>uname\<close>; the list under a server's id is that server's
  processes of the user in their order; \<^verbatim>\<open>servers_used\<close> is the ids of the online
  servers with a process of the user, in the order of \<open>cs\<close>;
  \<^verbatim>\<open>total_processes\<close> and \<^verbatim>\<open>total_memory_used_mb\<close> are the number and the memory of
  the user's processes on online servers; and when no online server has a process
  of the user, the totals are zero and the two collections are empty.
\<close>

theorem user_usage_filter:
  assumes r: "reachable w cfg st" and d: "distinct (map cfg_id (servers cfg))"
    and cs: "cs = cluster_servers (fst (get_cluster_status w cfg server_ids st))"
    and u: "u = fst (get_user_usage w cfg uname server_ids st)"
  shows "(\<forall>sid p.
            (\<exists>ps. dict_get (processes_by_server u) sid = Some ps \<and> p \<in> set ps) \<longleftrightarrow>
            (\<exists>s\<in>set cs. server_id s = sid \<and> online s \<and> p \<in> set (processes s) \<and> username p = uname))
     \<and> (\<forall>s\<in>set cs. online s \<and> (\<exists>p\<in>set (processes s). username p = uname) \<longrightarrow>
            dict_get (processes_by_server u) (server_id s) =
              Some (filter (\<lambda>p. username p = uname) (processes s)))
     \<and> servers_used u =
           map server_id (filter (\<lambda>s. online s \<and> (\<exists>p\<in>set (processes s). username p = uname)) cs)
     \<and> total_processes u =
           length (concat (map (\<lambda>s. filter (\<lambda>p. username p = uname) (processes s)) (filter online cs)))
     \<and> total_memory_used_mb u =
           sum_list (map memory_used_mb
             (concat (map (\<lambda>s. filter (\<lambda>p. username p = uname) (processes s)) (filter online cs))))
     \<and> ((\<forall>s\<in>set cs. online s \<longrightarrow> (\<forall>p\<in>set (processes s). username p \<noteq> uname)) \<longrightarrow>
            total_processes u = 0 \<and> total_memory_used_mb u = 0
          \<and> servers_used u = [] \<and> processes_by_server u = [])"
proof -
  let ?m = "\<lambda>s. filter (\<lambda>p. username p = uname) (processes s)"
  let ?hit = "\<lambda>s. online s \<and> ?m s \<noteq> []"
  note uc = usage_of_cluster [OF r d cs u]
  have dist: "distinct (map server_id (filter ?hit cs))"
    using cluster_ids_distinct [OF r d, of server_ids] by (simp add: cs distinct_map_filter)
  have hit_iff: "\<And>s. ?hit s \<longleftrightarrow> online s \<and> (\<exists>p\<in>set (processes s). username p = uname)"
    by (auto simp: filter_empty_conv)
  have get_hit: "\<And>s. s \<in> set cs \<Longrightarrow> ?hit s \<Longrightarrow>
      dict_get (processes_by_server u) (server_id s) = Some (?m s)"
  proof -
    fix s assume "s \<in> set cs" "?hit s"
    then have "s \<in> set (filter ?hit cs)" by simp
    from map_of_keyed [OF dist this, of ?m] show
      "dict_get (processes_by_server u) (server_id s) = Some (?m s)"
      by (simp add: dict_get_def uc(4))
  qed
  have get_some: "\<And>sid ps. dict_get (processes_by_server u) sid = Some ps \<Longrightarrow>
      \<exists>s\<in>set cs. ?hit s \<and> server_id s = sid \<and> ps = ?m s"
  proof -
    fix sid ps assume "dict_get (processes_by_server u) sid = Some ps"
    then have "map_of (map (\<lambda>s. (server_id s, ?m s)) (filter ?hit cs)) sid = Some ps"
      by (simp add: dict_get_def uc(4))
    from map_of_keyed_Some [OF this] show "\<exists>s\<in>set cs. ?hit s \<and> server_id s = sid \<and> ps = ?m s"
      by auto
  qed
  have a: "\<forall>sid p.
            (\<exists>ps. dict_get (processes_by_server u) sid = Some ps \<and> p \<in> set ps) \<longleftrightarrow>
            (\<exists>s\<in>set cs. server_id s = sid \<and> online s \<and> p \<in> set (processes s) \<and> username p = uname)"
  proof (intro allI iffI)
    fix sid p
    assume "\<exists>ps. dict_get (processes_by_server u) sid = Some ps \<and> p \<in> set ps"
    then obtain ps where g: "dict_get (processes_by_server u) sid = Some ps" and p: "p \<in> set ps"
      by blast
    from get_some [OF g] obtain s where "s \<in> set cs" "?hit s" "server_id s = sid" "ps = ?m s"
      by blast
    with p show "\<exists>s\<in>set cs. server_id s = sid \<and> online s \<and> p \<in> set (processes s) \<and> username p = uname"
      by auto
  next
    fix sid p
    assume "\<exists>s\<in>set cs. server_id s = sid \<and> online s \<and> p \<in> set (processes s) \<and> username p = uname"
    then obtain s where s: "s \<in> set cs" "server_id s = sid" "online s" "p \<in> set (processes s)"
      "username p = uname" by blast
    then have h: "?hit s" by (auto simp: filter_empty_conv)
    have "p \<in> set (?m s)" using s by simp
    with get_hit [OF s(1) h] s(2)
    show "\<exists>ps. dict_get (processes_by_server u) sid = Some ps \<and> p \<in> set ps" by auto
  qed
  have b: "\<forall>s\<in>set cs. online s \<and> (\<exists>p\<in>set (processes s). username p = uname) \<longrightarrow>
            dict_get (processes_by_server u) (server_id s) = Some (?m s)"
    using get_hit hit_iff by blast
  have c: "servers_used u =
           map server_id (filter (\<lambda>s. online s \<and> (\<exists>p\<in>set (processes s). username p = uname)) cs)"
    using uc(3) by (simp add: hit_iff)
  have e: "(\<forall>s\<in>set cs. online s \<longrightarrow> (\<forall>p\<in>set (processes s). username p \<noteq> uname)) \<longrightarrow>
            total_processes u = 0 \<and> total_memory_used_mb u = 0
          \<and> servers_used u = [] \<and> processes_by_server u = []"
  proof
    assume z: "\<forall>s\<in>set cs. online s \<longrightarrow> (\<forall>p\<in>set (processes s). username p \<noteq> uname)"
    then have n: "\<forall>s\<in>set cs. online s \<longrightarrow> ?m s = []"
      by (auto simp: filter_empty_conv)
    then have f: "filter ?hit cs = []" by (auto simp: filter_empty_conv)
    have k: "concat (map ?m (filter online cs)) = []" using n by simp
    show "total_processes u = 0 \<and> total_memory_used_mb u = 0
          \<and> servers_used u = [] \<and> processes_by_server u = []"
      by (simp add: uc f k)
  qed
  from a b c uc(1) uc(2) e show ?thesis by (intro conjI)
qed

theorem user_usage_filter_witness:
  "reachable ex_world ex_cfg init_monitor
   \<and> distinct (map cfg_id (servers ex_cfg))
   \<and> servers_used (fst (get_user_usage ex_world ex_cfg ''testuser'' None init_monitor))
       = [''gpu01'', ''gpu02'']
   \<and> dict_get (processes_by_server (fst (get_user_usage ex_world ex_cfg ''testuser'' None init_monitor)))
        ''gpu02'' = Some [\<lparr>pid = 222, username = ''testuser'', gpu_index = 0, memory_used_mb = 512,
          process_name = ''Memory python''\<rparr>]
   \<and> total_processes (fst (get_user_usage ex_world ex_cfg ''testuser'' None init_monitor)) = 2
   \<and> total_memory_used_mb (fst (get_user_usage ex_world ex_cfg ''testuser'' None init_monitor)) = 2560
   \<and> total_processes (fst (get_user_usage ex_world ex_cfg ''nobody'' None init_monitor)) = 0
   \<and> processes_by_server (fst (get_user_usage ex_world ex_cfg ''nobody'' None init_monitor)) = []"
proof -
  let ?cs = "cluster_servers (fst (get_cluster_status ex_world ex_cfg None init_monitor))"
  let ?u = "fst (get_user_usage ex_world ex_cfg ''testuser'' None init_monitor)"
  let ?n = "fst (get_user_usage ex_world ex_cfg ''nobody'' None init_monitor)"
  have r: "reachable ex_world ex_cfg init_monitor"
    by (rule reachable.start)
  have d: "distinct (map cfg_id (servers ex_cfg))"
    by (simp add: ex_servers)
  have cs: "?cs = [ex_up ''gpu01'' ''gpu01.example.com'' 30,
                   ex_up2 ''gpu02'' ''gpu02.example.com'' 80,
                   ex_down ''gpu03'' ''gpu03.example.com'' 130]"
    by (simp add: ex_cluster)
  note t = user_usage_filter [where server_ids = None and uname = "''testuser''", OF r d refl refl]
  from t have a: "servers_used ?u =
      map server_id (filter (\<lambda>s. online s \<and> (\<exists>p\<in>set (processes s). username p = ''testuser'')) ?cs)"
    by (elim conjE)
  from t have b: "\<forall>s\<in>set ?cs. online s \<and> (\<exists>p\<in>set (processes s). username p = ''testuser'') \<longrightarrow>
      dict_get (processes_by_server ?u) (server_id s) =
        Some (filter (\<lambda>p. username p = ''testuser'') (processes s))"
    by (elim conjE)
  from t have c: "total_processes ?u =
      length (concat (map (\<lambda>s. filter (\<lambda>p. username p = ''testuser'') (processes s)) (filter online ?cs)))"
    by (elim conjE)
  from t have e: "total_memory_used_mb ?u =
      sum_list (map memory_used_mb
        (concat (map (\<lambda>s. filter (\<lambda>p. username p = ''testuser'') (processes s)) (filter online ?cs))))"
    by (elim conjE)
  note tn = user_usage_filter [where server_ids = None and uname = "''nobody''", OF r d refl refl]
  from tn have z: "(\<forall>s\<in>set ?cs. online s \<longrightarrow> (\<forall>p\<in>set (processes s). username p \<noteq> ''nobody'')) \<longrightarrow>
      total_processes ?n = 0 \<and> total_memory_used_mb ?n = 0
      \<and> servers_used ?n = [] \<and> processes_by_server ?n = []"
    by (elim conjE)
  have a': "servers_used ?u = [''gpu01'', ''gpu02'']"
    unfolding a cs by simp
  have b': "dict_get (processes_by_server ?u) ''gpu02'' = Some [\<lparr>pid = 222, username = ''testuser'', gpu_index = 0, memory_used_mb = 512,
          process_name = ''Memory python''\<rparr>]"
    using b unfolding cs by simp
  have c': "total_processes ?u = 2"
    unfolding c cs by simp
  have e': "total_memory_used_mb ?u = 2560"
    unfolding e cs by simp
  have z': "total_processes ?n = 0 \<and> processes_by_server ?n = []"
    using z unfolding cs by simp
  from r d a' b' c' e' z' show ?thesis by simp
qed

subsection \<open>A usage summary is consistent with itself\<close>

text \<open>
  C10. Server ids are unique in the data model. In a state a monitor can reach and
  for a configuration whose server ids are pairwise distinct, the summary \<^verbatim>\<open>get_user_usage\<close> returns has
  \<^verbatim>\<open>servers_used\<close> equal to the keys of \<^verbatim>\<open>processes_by_server\<close> in their order
  (and without repetition), no empty list in \<^verbatim>\<open>processes_by_server\<close>,
  \<^verbatim>\<open>total_processes\<close> equal to the sum of the lengths of those lists and
  \<^verbatim>\<open>total_memory_used_mb\<close> equal to the memory of all processes in them.
\<close>

theorem usage_summary_consistent:
  assumes r: "reachable w cfg st" and d: "distinct (map cfg_id (servers cfg))"
    and u: "u = fst (get_user_usage w cfg uname server_ids st)"
  shows "servers_used u = map fst (processes_by_server u)
     \<and> distinct (servers_used u)
     \<and> (\<forall>(sid, ps)\<in>set (processes_by_server u). ps \<noteq> [])
     \<and> total_processes u = sum_list (map (\<lambda>(sid, ps). length ps) (processes_by_server u))
     \<and> total_memory_used_mb u =
         sum_list (map memory_used_mb (concat (map snd (processes_by_server u))))"
proof -
  let ?cs = "cluster_servers (fst (get_cluster_status w cfg server_ids st))"
  let ?m = "\<lambda>s. filter (\<lambda>p. username p = uname) (processes s)"
  let ?hit = "\<lambda>s. online s \<and> ?m s \<noteq> []"
  note uc = usage_of_cluster [OF r d refl u]
  have cc: "concat (map ?m (filter online ?cs)) = concat (map ?m (filter ?hit ?cs))"
    by (rule concat_skip_empty)
  have a: "servers_used u = map fst (processes_by_server u)"
    by (simp add: uc(3,4) comp_def)
  have b: "distinct (servers_used u)"
    using cluster_ids_distinct [OF r d, of server_ids] by (simp add: uc(3) distinct_map_filter)
  have c: "\<forall>(sid, ps)\<in>set (processes_by_server u). ps \<noteq> []"
    by (auto simp: uc(4))
  have e: "total_processes u = sum_list (map (\<lambda>(sid, ps). length ps) (processes_by_server u))"
    by (simp add: uc(1,4) cc length_concat comp_def)
  have f: "total_memory_used_mb u =
         sum_list (map memory_used_mb (concat (map snd (processes_by_server u))))"
    by (simp add: uc(2,4) cc comp_def)
  from a b c e f show ?thesis by (intro conjI)
qed

theorem usage_summary_consistent_witness:
  "reachable ex_world ex_cfg init_monitor
   \<and> distinct (map cfg_id (servers ex_cfg))
   \<and> servers_used (fst (get_user_usage ex_world ex_cfg ''testuser'' None init_monitor))
       = map fst (processes_by_server (fst (get_user_usage ex_world ex_cfg ''testuser'' None init_monitor)))
   \<and> map fst (processes_by_server (fst (get_user_usage ex_world ex_cfg ''testuser'' None init_monitor)))
       = [''gpu01'', ''gpu02'']
   \<and> total_processes (fst (get_user_usage ex_world ex_cfg ''testuser'' None init_monitor))
       = sum_list (map (\<lambda>(sid, ps). length ps)
           (processes_by_server (fst (get_user_usage ex_world ex_cfg ''testuser'' None init_monitor))))
   \<and> total_processes (fst (get_user_usage ex_world ex_cfg ''testuser'' None init_monitor)) = 2"
proof -
  have r: "reachable ex_world ex_cfg init_monitor"
    by (rule reachable.start)
  have d: "distinct (map cfg_id (servers ex_cfg))"
    by (simp add: ex_servers)
  note t = usage_summary_consistent [where server_ids = None and uname = "''testuser''", OF r d refl]
  from t have a: "servers_used (fst (get_user_usage ex_world ex_cfg ''testuser'' None init_monitor))
       = map fst (processes_by_server (fst (get_user_usage ex_world ex_cfg ''testuser'' None init_monitor)))"
    by (elim conjE)
  from t have b: "total_processes (fst (get_user_usage ex_world ex_cfg ''testuser'' None init_monitor))
       = sum_list (map (\<lambda>(sid, ps). length ps)
           (processes_by_server (fst (get_user_usage ex_world ex_cfg ''testuser'' None init_monitor))))"
    by (elim conjE)
  have k: "map fst (processes_by_server (fst (get_user_usage ex_world ex_cfg ''testuser'' None init_monitor)))
       = [''gpu01'', ''gpu02'']"
    by (simp add: ex_usage)
  have n: "total_processes (fst (get_user_usage ex_world ex_cfg ''testuser'' None init_monitor)) = 2"
    by (simp add: ex_usage)
  from r d a b k n show ?thesis by (intro conjI)
qed

subsection \<open>Killing the processes of a user\<close>

lemma dict_get_set: "dict_get (dict_set d k v) k' = (if k' = k then Some v else dict_get d k')"
  by (induction d) (auto simp: dict_get_def)

lemma dict_set_keys: "fst ` set (dict_set d k v) = insert k (fst ` set d)"
proof (induction d)
  case Nil
  show ?case by simp
next
  case (Cons a d)
  obtain k' v' where a: "a = (k', v')" by (cases a)
  show ?case
  proof (cases "k' = k")
    case True
    then show ?thesis by (simp add: a)
  next
    case False
    then show ?thesis using Cons.IH by (simp add: a insert_commute)
  qed
qed

lemma dict_set_distinct: "distinct (map fst d) \<Longrightarrow> distinct (map fst (dict_set d k v))"
proof (induction d)
  case Nil
  show ?case by simp
next
  case (Cons a d)
  obtain k' v' where a: "a = (k', v')" by (cases a)
  show ?case
  proof (cases "k' = k")
    case True
    then show ?thesis using Cons.prems by (simp add: a)
  next
    case False
    then show ?thesis using Cons by (simp add: a dict_set_keys)
  qed
qed

lemma dict_fold_distinct_keys:
  "distinct (map fst b) \<Longrightarrow>
   distinct (map fst (foldl (\<lambda>d s. dict_set d (server_id s) (f s)) b xs))"
  by (induction xs arbitrary: b) (simp_all add: dict_set_distinct)

lemma usage_keys_distinct:
  "distinct (map fst (processes_by_server (fst (get_user_usage w cfg uname server_ids st))))"
  using dict_fold_distinct_keys [of "[]"]
  by (simp add: get_user_usage_fst usage_loop_def usage_foldl)

lemma cache_key_inj: "cache_key_of a = cache_key_of b \<longleftrightarrow> a = b"
  by (simp add: cache_key_of_def)

lemma kill_step_found:
  assumes "find (\<lambda>s. cfg_id s = sid) (servers cfg) = Some server"
  shows "kill_step w cfg (sid, procs) (results, st) =
     (if fst (fst (run_ssh_command w cfg (hostname server) (kill_command procs) st)) then
        (dict_set results sid (''Killed '' @ str_nat (length procs) @ '' processes''),
         (snd (run_ssh_command w cfg (hostname server) (kill_command procs) st))
           \<lparr>cache := (cache st)(cache_key_of sid := None)\<rparr>)
      else
        (dict_set results sid (''Failed to kill processes: ''
            @ fst (snd (fst (run_ssh_command w cfg (hostname server) (kill_command procs) st)))),
         snd (run_ssh_command w cfg (hostname server) (kill_command procs) st)))"
  using assms by (simp add: kill_step_def case_prod_beta)

lemma kill_step_frame:
  assumes "fst item \<noteq> sid"
  shows "dict_get (fst (kill_step w cfg item acc)) sid = dict_get (fst acc) sid"
    and "cache (snd (kill_step w cfg item acc)) (cache_key_of sid) = cache (snd acc) (cache_key_of sid)"
  using assms
  by (auto simp add: kill_step_def case_prod_beta dict_get_set cache_key_inj split: option.splits)

lemma kill_loop_Cons: "kill_loop w cfg (x # xs) acc = kill_loop w cfg xs (kill_step w cfg x acc)"
  by (simp add: kill_loop_def)

lemma kill_loop_append:
  "kill_loop w cfg (xs @ ys) acc = kill_loop w cfg ys (kill_loop w cfg xs acc)"
  by (simp add: kill_loop_def)

lemma kill_loop_frame:
  assumes "sid \<notin> set (map fst items)"
  shows "dict_get (fst (kill_loop w cfg items acc)) sid = dict_get (fst acc) sid
     \<and> cache (snd (kill_loop w cfg items acc)) (cache_key_of sid) = cache (snd acc) (cache_key_of sid)"
  using assms
proof (induction items arbitrary: acc)
  case Nil
  show ?case by (simp add: kill_loop_def)
next
  case (Cons x xs)
  have n: "fst x \<noteq> sid" and r: "sid \<notin> set (map fst xs)"
    using Cons.prems by auto
  show ?case
    using Cons.IH [OF r, of "kill_step w cfg x acc"] kill_step_frame [OF n, of w cfg acc]
    by (simp add: kill_loop_Cons)
qed


lemma kill_step_log:
  "ssh_log (snd (kill_step w cfg (sid, procs) acc)) =
     ssh_log (snd acc) @
       (case find (\<lambda>s. cfg_id s = sid) (servers cfg) of
          None \<Rightarrow> []
        | Some server \<Rightarrow> [(hostname server, kill_command procs)])"
proof (cases "find (\<lambda>s. cfg_id s = sid) (servers cfg)")
  case None
  then show ?thesis by (simp add: kill_step_def case_prod_beta)
next
  case (Some server)
  obtain results st where acc: "acc = (results, st)" by (cases acc)
  show ?thesis
    using run_ssh_log [of w cfg "hostname server" "kill_command procs" st]
    by (simp add: acc Some kill_step_found [OF Some])
qed

lemma kill_loop_log:
  "ssh_log (snd (kill_loop w cfg items acc)) =
     ssh_log (snd acc) @
       concat (map (\<lambda>(sid, procs).
         case find (\<lambda>s. cfg_id s = sid) (servers cfg) of
           None \<Rightarrow> []
         | Some server \<Rightarrow> [(hostname server, kill_command procs)]) items)"
proof (induction items arbitrary: acc)
  case Nil
  show ?case by (simp add: kill_loop_def)
next
  case (Cons x xs)
  obtain sid procs where x: "x = (sid, procs)" by (cases x)
  show ?case
    using Cons.IH [of "kill_step w cfg x acc"] kill_step_log [of w cfg sid procs acc]
    by (simp add: kill_loop_Cons x)
qed

lemma kill_user_tasks_loop:
  assumes "get_user_usage w cfg uname server_ids st = (usage, st1)"
    and "processes_by_server usage \<noteq> []"
  shows "kill_user_tasks w cfg uname server_ids True st =
           kill_loop w cfg (processes_by_server usage) ([], st1)"
  using assms by (simp add: kill_user_tasks_def)

lemma ex_kill_take: "take 4 (kill_command procs) = ''kill''"
  by (simp add: kill_command_def)

lemma ex_run_kill1:
  "run_ssh_command ex_world cfg ''gpu01.example.com'' (kill_command procs) st =
     ((True, [], 10000),
      st\<lparr>ssh_log := ssh_log st @ [(''gpu01.example.com'', kill_command procs)],
         ticks := Suc (Suc (ticks st))\<rparr>)"
  by (simp add: run_ssh_command_def ssh_attempt_def time_time_def decode_def ex_world_def
      ex_kill_take ex_utf8_empty ex_strip_empty)

lemma ex_run_kill2:
  "run_ssh_command ex_world cfg ''gpu02.example.com'' (kill_command procs) st =
     ((False, ''Operation not permitted'', 10000),
      st\<lparr>ssh_log := ssh_log st @ [(''gpu02.example.com'', kill_command procs)],
         ticks := Suc (Suc (ticks st))\<rparr>)"
  by (simp add: run_ssh_command_def ssh_attempt_def time_time_def decode_def ex_world_def
      ex_kill_take ex_utf8_denied ex_strip_denied)

lemma ex_kill_command1:
  "kill_command [\<lparr>pid = 12345, username = ''testuser'', gpu_index = 0,
                  memory_used_mb = 2048, process_name = ''Memory python''\<rparr>] = ''kill -9 12345''"
  by (simp add: kill_command_def join_space.simps str_int_def str_nat.simps)

lemma ex_kill_command2:
  "kill_command [\<lparr>pid = 222, username = ''testuser'', gpu_index = 0,
                  memory_used_mb = 512, process_name = ''Memory python''\<rparr>] = ''kill -9 222''"
  by (simp add: kill_command_def join_space.simps str_int_def str_nat.simps)

lemma ex_str_one: "str_nat (Suc 0) = ''1''"
  by (simp add: str_nat.simps)

lemma kill_item_effect:
  assumes u: "get_user_usage w cfg uname server_ids st = (usage, st1)"
    and i: "i < length (processes_by_server usage)"
    and item: "processes_by_server usage ! i = (sid, procs)"
    and srv: "find (\<lambda>s. cfg_id s = sid) (servers cfg) = Some server"
    and before: "kill_loop w cfg (take i (processes_by_server usage)) ([], st1) = (results_i, st_i)"
    and run: "run_ssh_command w cfg (hostname server) (kill_command procs) st_i =
                ((success, output, elapsed), st_i')"
    and k: "kill_user_tasks w cfg uname server_ids True st = (results, st')"
  shows "(success \<longrightarrow>
            dict_get results sid = Some (''Killed '' @ str_nat (length procs) @ '' processes'')
          \<and> cache st' (cache_key_of sid) = None)
     \<and> (\<not> success \<longrightarrow>
            dict_get results sid = Some (''Failed to kill processes: '' @ output)
          \<and> cache st' (cache_key_of sid) = cache st1 (cache_key_of sid))
     \<and> ssh_log st_i' = ssh_log st_i @ [(hostname server, kill_command procs)]
     \<and> ssh_log st' =
         ssh_log st1 @
           concat (map (\<lambda>(sid, procs).
             case find (\<lambda>s. cfg_id s = sid) (servers cfg) of
               None \<Rightarrow> []
             | Some server \<Rightarrow> [(hostname server, kill_command procs)])
             (processes_by_server usage))"
proof -
  let ?items = "processes_by_server usage"
  let ?pre = "take i ?items"
  let ?post = "drop (Suc i) ?items"
  let ?mid = "kill_step w cfg (sid, procs) (results_i, st_i)"
  have usage: "usage = fst (get_user_usage w cfg uname server_ids st)"
    by (simp add: u)
  have dist: "distinct (map fst ?items)"
    unfolding usage by (rule usage_keys_distinct)
  have split: "?items = ?pre @ (sid, procs) # ?post"
    using id_take_nth_drop [OF i] item by simp
  have "distinct (map fst (?pre @ (sid, procs) # ?post))"
    using dist split by simp
  then have npre: "sid \<notin> set (map fst ?pre)" and npost: "sid \<notin> set (map fst ?post)"
    by auto
  have ne: "?items \<noteq> []" using i by auto
  have "kill_user_tasks w cfg uname server_ids True st = kill_loop w cfg ?items ([], st1)"
    by (rule kill_user_tasks_loop [OF u ne])
  also have "\<dots> = kill_loop w cfg (?pre @ (sid, procs) # ?post) ([], st1)"
    using split by simp
  also have "\<dots> = kill_loop w cfg ?post ?mid"
    by (simp add: kill_loop_append kill_loop_Cons before)
  finally have whole: "kill_loop w cfg ?post ?mid = (results, st')"
    using k by simp
  have all: "kill_loop w cfg ?items ([], st1) = (results, st')"
    using kill_user_tasks_loop [OF u ne] k by simp
  have post: "dict_get results sid = dict_get (fst ?mid) sid"
    "cache st' (cache_key_of sid) = cache (snd ?mid) (cache_key_of sid)"
    using kill_loop_frame [OF npost, of w cfg ?mid] whole by simp_all
  have pre: "cache st_i (cache_key_of sid) = cache st1 (cache_key_of sid)"
    using kill_loop_frame [OF npre, of w cfg "([], st1)"] before by simp
  have c: "cache st_i' = cache st_i"
    using run_ssh_cache [of w cfg "hostname server" "kill_command procs" st_i] run by simp
  have l: "ssh_log st_i' = ssh_log st_i @ [(hostname server, kill_command procs)]"
    using run_ssh_log [of w cfg "hostname server" "kill_command procs" st_i] run by simp
  have mid: "?mid =
     (if success then
        (dict_set results_i sid (''Killed '' @ str_nat (length procs) @ '' processes''),
         st_i'\<lparr>cache := (cache st_i)(cache_key_of sid := None)\<rparr>)
      else (dict_set results_i sid (''Failed to kill processes: '' @ output), st_i'))"
    by (simp add: kill_step_found [OF srv] run)
  have a: "success \<longrightarrow>
            dict_get results sid = Some (''Killed '' @ str_nat (length procs) @ '' processes'')
          \<and> cache st' (cache_key_of sid) = None"
    by (simp add: post mid dict_get_set)
  have b: "\<not> success \<longrightarrow>
            dict_get results sid = Some (''Failed to kill processes: '' @ output)
          \<and> cache st' (cache_key_of sid) = cache st1 (cache_key_of sid)"
    by (simp add: post mid dict_get_set c pre)
  have g: "ssh_log st' =
         ssh_log st1 @
           concat (map (\<lambda>(sid, procs).
             case find (\<lambda>s. cfg_id s = sid) (servers cfg) of
               None \<Rightarrow> []
             | Some server \<Rightarrow> [(hostname server, kill_command procs)]) ?items)"
    using kill_loop_log [of w cfg ?items "([], st1)"] all by simp
  from a b l g show ?thesis by (intro conjI)
qed

lemma dict_fold_keys:
  "fst ` set (foldl (\<lambda>d s. dict_set d (server_id s) (f s)) b xs) =
     fst ` set b \<union> server_id ` set xs"
  by (induction xs arbitrary: b) (auto simp: dict_set_keys)

lemma usage_keys_configured:
  assumes r: "reachable w cfg st"
    and m: "(sid, procs) \<in> set (processes_by_server (fst (get_user_usage w cfg uname server_ids st)))"
  shows "\<exists>server. find (\<lambda>s. cfg_id s = sid) (servers cfg) = Some server"
proof -
  let ?cs = "cluster_servers (fst (get_cluster_status w cfg server_ids st))"
  have "sid \<in> fst ` set (processes_by_server (fst (get_user_usage w cfg uname server_ids st)))"
    using m by force
  then have "sid \<in> server_id ` set ?cs"
    by (auto simp add: get_user_usage_fst usage_loop_def usage_foldl dict_fold_keys)
  then have "sid \<in> set (map server_id ?cs)"
    by simp
  then have "sid \<in> set (map cfg_id (servers_to_check cfg server_ids))"
    using get_cluster_status_ok [OF reachable_cache_ok [OF r], of w cfg server_ids] by simp
  then have "sid \<in> cfg_id ` set (servers cfg)"
    using servers_to_check_subset [of cfg server_ids] by auto
  then have "find (\<lambda>s. cfg_id s = sid) (servers cfg) \<noteq> None"
    by (auto simp: find_None_iff)
  then show ?thesis by auto
qed

text \<open>
  C7. Let \<^verbatim>\<open>kill_user_tasks\<close> be called with \<^verbatim>\<open>confirm=True\<close> in a state a monitor
  can reach, let \<open>usage\<close> be the summary it computes and \<open>st1\<close> the monitor after
  that, and take the \<open>i\<close>-th item \<open>(sid, procs)\<close> of \<^verbatim>\<open>processes_by_server\<close>, the
  loop having reached it with the results \<open>results_i\<close> in the state \<open>st_i\<close>. The
  server \<open>sid\<close> is configured, and one remote command is run for the item,
  \<^verbatim>\<open>kill -9\<close> with the pids of \<open>procs\<close> on the host of that server. If it succeeds,
  the result returned holds under \<open>sid\<close> the message with the number of
  processes, and the cache returned has no entry under the key of \<open>sid\<close>. If it
  fails, the result returned holds under \<open>sid\<close> the failure message with the text
  of the runner, and the entry of the cache under the key of \<open>sid\<close> is the one it
  was after the usage query. The remote commands of the whole call after the usage
  query are one per item, in order.
\<close>

theorem kill_results_and_cache:
  assumes r: "reachable w cfg st"
    and u: "get_user_usage w cfg uname server_ids st = (usage, st1)"
    and i: "i < length (processes_by_server usage)"
    and item: "processes_by_server usage ! i = (sid, procs)"
    and before: "kill_loop w cfg (take i (processes_by_server usage)) ([], st1) = (results_i, st_i)"
    and k: "kill_user_tasks w cfg uname server_ids True st = (results, st')"
  shows "\<exists>server success output elapsed st_i'.
           find (\<lambda>s. cfg_id s = sid) (servers cfg) = Some server
         \<and> run_ssh_command w cfg (hostname server) (kill_command procs) st_i =
             ((success, output, elapsed), st_i')
         \<and> ssh_log st_i' = ssh_log st_i @ [(hostname server, kill_command procs)]
         \<and> (success \<longrightarrow>
              dict_get results sid = Some (''Killed '' @ str_nat (length procs) @ '' processes'')
            \<and> cache st' (cache_key_of sid) = None)
         \<and> (\<not> success \<longrightarrow>
              dict_get results sid = Some (''Failed to kill processes: '' @ output)
            \<and> cache st' (cache_key_of sid) = cache st1 (cache_key_of sid))
         \<and> ssh_log st' =
             ssh_log st1 @
               concat (map (\<lambda>(sid, procs).
                 case find (\<lambda>s. cfg_id s = sid) (servers cfg) of
                   None \<Rightarrow> []
                 | Some server \<Rightarrow> [(hostname server, kill_command procs)])
                 (processes_by_server usage))"
proof -
  have "(sid, procs) \<in> set (processes_by_server (fst (get_user_usage w cfg uname server_ids st)))"
    using u i item nth_mem [OF i] by simp
  from usage_keys_configured [OF r this]
  obtain server where srv: "find (\<lambda>s. cfg_id s = sid) (servers cfg) = Some server"
    by blast
  obtain success out elapsed st_i' where
    run: "run_ssh_command w cfg (hostname server) (kill_command procs) st_i =
            ((success, out, elapsed), st_i')"
    by (metis prod.collapse)
  note e = kill_item_effect [OF u i item srv before run k]
  from e have a: "success \<longrightarrow>
              dict_get results sid = Some (''Killed '' @ str_nat (length procs) @ '' processes'')
            \<and> cache st' (cache_key_of sid) = None"
    by (elim conjE)
  from e have b: "\<not> success \<longrightarrow>
              dict_get results sid = Some (''Failed to kill processes: '' @ out)
            \<and> cache st' (cache_key_of sid) = cache st1 (cache_key_of sid)"
    by (elim conjE)
  from e have l: "ssh_log st_i' = ssh_log st_i @ [(hostname server, kill_command procs)]"
    by (elim conjE)
  from e have g: "ssh_log st' =
             ssh_log st1 @
               concat (map (\<lambda>(sid, procs).
                 case find (\<lambda>s. cfg_id s = sid) (servers cfg) of
                   None \<Rightarrow> []
                 | Some server \<Rightarrow> [(hostname server, kill_command procs)])
                 (processes_by_server usage))"
    by (elim conjE)
  from srv run l a b g show ?thesis by blast
qed


theorem kill_results_and_cache_witness:
  "reachable ex_world ex_cfg init_monitor
   \<and> dict_get (fst (kill_user_tasks ex_world ex_cfg ''testuser'' None True init_monitor)) ''gpu01''
     = Some ''Killed 1 processes''
   \<and> cache (snd (kill_user_tasks ex_world ex_cfg ''testuser'' None True init_monitor))
       (cache_key_of ''gpu01'') = None
   \<and> dict_get (fst (kill_user_tasks ex_world ex_cfg ''testuser'' None True init_monitor)) ''gpu02''
     = Some ''Failed to kill processes: Operation not permitted''
   \<and> cache (snd (kill_user_tasks ex_world ex_cfg ''testuser'' None True init_monitor))
       (cache_key_of ''gpu02'') = Some (ex_up2 ''gpu02'' ''gpu02.example.com'' 80, 90)
   \<and> ssh_log (snd (kill_user_tasks ex_world ex_cfg ''testuser'' None True init_monitor)) =
       [(''gpu01.example.com'', nvidia_smi_command),
        (''gpu02.example.com'', nvidia_smi_command),
        (''gpu03.example.com'', nvidia_smi_command),
        (''gpu01.example.com'', ''kill -9 12345''),
        (''gpu02.example.com'', ''kill -9 222'')]"
proof -
  let ?p1 = "\<lparr>pid = 12345, username = ''testuser'', gpu_index = 0,
               memory_used_mb = 2048, process_name = ''Memory python''\<rparr>"
  let ?p2 = "\<lparr>pid = 222, username = ''testuser'', gpu_index = 0,
               memory_used_mb = 512, process_name = ''Memory python''\<rparr>"
  let ?usage = "fst (get_user_usage ex_world ex_cfg ''testuser'' None init_monitor)"
  let ?st1 = "ex_after_status\<lparr>ticks := 17\<rparr>"
  let ?s1 = "\<lparr>cfg_id = ''gpu01'', hostname = ''gpu01.example.com'', description = []\<rparr>"
  let ?s2 = "\<lparr>cfg_id = ''gpu02'', hostname = ''gpu02.example.com'', description = []\<rparr>"
  let ?k = "kill_user_tasks ex_world ex_cfg ''testuser'' None True init_monitor"
  let ?mid = "kill_loop ex_world ex_cfg (take 1 (processes_by_server ?usage)) ([], ?st1)"
  have r: "reachable ex_world ex_cfg init_monitor"
    by (rule reachable.start)
  have u: "get_user_usage ex_world ex_cfg ''testuser'' None init_monitor = (?usage, ?st1)"
    by (simp add: ex_usage)
  have items: "processes_by_server ?usage = [(''gpu01'', [?p1]), (''gpu02'', [?p2])]"
    by (simp add: ex_usage)
  have i1: "0 < length (processes_by_server ?usage)" and i2: "1 < length (processes_by_server ?usage)"
    by (simp_all add: items)
  have item1: "processes_by_server ?usage ! 0 = (''gpu01'', [?p1])"
    and item2: "processes_by_server ?usage ! 1 = (''gpu02'', [?p2])"
    by (simp_all add: items)
  have srv1: "find (\<lambda>s. cfg_id s = ''gpu01'') (servers ex_cfg) = Some ?s1"
    and srv2: "find (\<lambda>s. cfg_id s = ''gpu02'') (servers ex_cfg) = Some ?s2"
    by (simp_all add: ex_servers)
  have before1: "kill_loop ex_world ex_cfg (take 0 (processes_by_server ?usage)) ([], ?st1) = ([], ?st1)"
    by (simp add: kill_loop_def)
  have before2: "?mid = (fst ?mid, snd ?mid)"
    by simp
  have k: "?k = (fst ?k, snd ?k)"
    by simp
  from kill_results_and_cache [OF r u i1 item1 before1 k]
  obtain server1 success1 out1 elapsed1 st1' where
    f1: "find (\<lambda>s. cfg_id s = ''gpu01'') (servers ex_cfg) = Some server1"
    and run1: "run_ssh_command ex_world ex_cfg (hostname server1) (kill_command [?p1]) ?st1 =
                 ((success1, out1, elapsed1), st1')"
    and a1: "success1 \<longrightarrow>
        dict_get (fst ?k) ''gpu01'' = Some (''Killed '' @ str_nat (length [?p1]) @ '' processes'')
        \<and> cache (snd ?k) (cache_key_of ''gpu01'') = None"
    and e0: "ssh_log (snd ?k) =
         ssh_log ?st1 @
           concat (map (\<lambda>(sid, procs).
             case find (\<lambda>s. cfg_id s = sid) (servers ex_cfg) of
               None \<Rightarrow> []
             | Some server \<Rightarrow> [(hostname server, kill_command procs)])
             (processes_by_server ?usage))"
    by blast
  from kill_results_and_cache [OF r u i2 item2 before2 k]
  obtain server2 success2 out2 elapsed2 st2' where
    f2: "find (\<lambda>s. cfg_id s = ''gpu02'') (servers ex_cfg) = Some server2"
    and run2: "run_ssh_command ex_world ex_cfg (hostname server2) (kill_command [?p2]) (snd ?mid) =
                 ((success2, out2, elapsed2), st2')"
    and a2: "\<not> success2 \<longrightarrow>
        dict_get (fst ?k) ''gpu02'' = Some (''Failed to kill processes: '' @ out2)
        \<and> cache (snd ?k) (cache_key_of ''gpu02'') = cache ?st1 (cache_key_of ''gpu02'')"
    by blast
  have v1: "server1 = ?s1"
    using f1 unfolding srv1 by simp
  have v2: "server2 = ?s2"
    using f2 unfolding srv2 by simp
  have h1: "hostname server1 = ''gpu01.example.com''"
    unfolding v1 by simp
  have h2: "hostname server2 = ''gpu02.example.com''"
    unfolding v2 by simp
  have s1: "success1"
    using run1 unfolding h1 ex_run_kill1 by simp
  have s2: "\<not> success2" and o2: "out2 = ''Operation not permitted''"
    using run2 unfolding h2 ex_run_kill2 by simp_all
  have a: "dict_get (fst ?k) ''gpu01'' = Some ''Killed 1 processes''"
    using a1 s1 by (simp add: ex_str_one)
  have b: "cache (snd ?k) (cache_key_of ''gpu01'') = None"
    using a1 s1 by simp
  have c: "dict_get (fst ?k) ''gpu02'' = Some ''Failed to kill processes: Operation not permitted''"
    using a2 s2 o2 by simp
  have st1c: "cache ?st1 (cache_key_of ''gpu02'') = Some (ex_up2 ''gpu02'' ''gpu02.example.com'' 80, 90)"
    by (simp add: ex_after_status_def cache_key_of_def)
  have d: "cache (snd ?k) (cache_key_of ''gpu02'') = Some (ex_up2 ''gpu02'' ''gpu02.example.com'' 80, 90)"
    using a2 s2 st1c by simp
  have l: "ssh_log ?st1 = [(''gpu01.example.com'', nvidia_smi_command),
        (''gpu02.example.com'', nvidia_smi_command),
        (''gpu03.example.com'', nvidia_smi_command)]"
    by (simp add: ex_after_status_def)
  have e: "ssh_log (snd ?k) =
       [(''gpu01.example.com'', nvidia_smi_command),
        (''gpu02.example.com'', nvidia_smi_command),
        (''gpu03.example.com'', nvidia_smi_command),
        (''gpu01.example.com'', ''kill -9 12345''),
        (''gpu02.example.com'', ''kill -9 222'')]"
    unfolding e0 l items by (simp add: srv1 srv2 ex_kill_command1 ex_kill_command2)
  from r a b c d e show ?thesis by (intro conjI)
qed

end
